theory Spec2Isabelle
  imports Main "HOL-Library.Word"
begin

section \<open>Data model\<close>

text \<open>
  The bot of \<^verbatim>\<open>main.go\<close> reads its configuration, lists the open pull requests of one
  repository and runs a decision procedure on each of them. Everything it does to the
  outside world is a request to the repository host or a message handed to the mail
  transport; the model records these requests, in order, together with the error value
  each of them returned.

  Go's \<^verbatim>\<open>int\<close> (on the 64-bit targets the bot is built for) and \<^verbatim>\<open>time.Duration\<close>
  are 64-bit two's complement integers: \<open>+\<close> and \<open>*\<close> wrap around and \<open>sint\<close> reads
  the value. An instant (\<^verbatim>\<open>time.Time\<close>) is the number of nanoseconds since the Unix
  epoch, an unbounded integer, since the range of \<^verbatim>\<open>time.Time\<close> exceeds every
  duration. Strings are byte strings.
\<close>

type_synonym int64 = "64 word"
type_synonym duration = "64 word"
type_synonym instant = int

text \<open>A \<^verbatim>\<open>*github.User\<close>, read through its nil-safe getters: a missing user, handle
  or public email reads as the empty string.\<close>

record user =
  login :: string
  email :: string

text \<open>A \<^verbatim>\<open>*github.PullRequest\<close> snapshot, with the fields the bot reads.\<close>

record pull_request =
  number :: int
  title :: string
  author :: user
  updatedAt :: instant
  labels :: "string list"
  htmlURL :: string

text \<open>The values of the command-line flags after \<^verbatim>\<open>flag.Parse\<close>.\<close>

record config =
  githubToken :: string
  githubBaseURL :: string
  owner :: string
  repo :: string
  daysInactive :: int64
  warningPeriod :: int64
  smtpServer :: string
  smtpPort :: int64
  smtpUser :: string
  smtpPassword :: string
  emailDomain :: string

text \<open>An error value is opaque, and the wrapping of one error in the message of
  another is left out; \<open>None\<close> is Go's \<^verbatim>\<open>nil\<close>.\<close>

datatype error = Error string

text \<open>The two fixed message templates. Subject and body are the template filled with
  the pull request's number, author handle and link; their text is not modelled.\<close>

datatype notice = StaleWarning | ClosureNotice

text \<open>The requests the bot sends: to the repository host (the first five) and to the
  mail transport (recipient, template, pull-request number).\<close>

datatype request =
    UsersGet
  | PullRequestsList string string nat
  | RemoveLabelForIssue string string int string
  | PullRequestsEdit string string int string
  | AddLabelsToIssue string string int "string list"
  | SendEmail string notice int

type_synonym event = "request \<times> error option"

text \<open>
  What the outside world answers while one pull request is processed. The loop body
  makes each kind of call at most once per pull request, so one answer per kind
  describes every behaviour of the host, the mail transport and the clock.
\<close>

record responses =
  clock :: instant
  removeLabel_err :: "error option"
  closePR_err :: "error option"
  addLabel_err :: "error option"
  sendEmail_err :: "error option"

section \<open>Strings\<close>

text \<open>
  Strings are byte strings, read as UTF-8 where the Go library reads runes. The Unicode
  tables of the Go library are not part of the repository. Their entries for the ASCII
  runes are written out below; what the library computes from the rest of them is a
  parameter of the model: whether the walk of \<^verbatim>\<open>strings.EqualFold\<close> along
  \<^verbatim>\<open>unicode.SimpleFold\<close> from the smaller of two distinct non-ASCII runes arrives at
  the larger one, and the result of \<^verbatim>\<open>strings.Map(unicode.ToLower, s)\<close> on a string
  that is not plain ASCII.
\<close>

record unicode =
  foldsTo :: "nat \<Rightarrow> nat \<Rightarrow> bool"
  mapToLower :: "string \<Rightarrow> string"

definition isASCII :: "string \<Rightarrow> bool" where
  "isASCII s = list_all (\<lambda>c. (of_char c :: nat) < 128) s"

definition lowerByte :: "char \<Rightarrow> char" where
  "lowerByte c =
     (if 65 \<le> (of_char c :: nat) \<and> (of_char c :: nat) \<le> 90
      then char_of ((of_char c :: nat) + 32) else c)"

text \<open>\<^verbatim>\<open>strings.ToLower\<close>: byte by byte on a plain ASCII string, through the Unicode
  tables otherwise.\<close>

definition ToLower :: "unicode \<Rightarrow> string \<Rightarrow> string" where
  "ToLower U s = (if isASCII s then map lowerByte s else mapToLower U s)"

text \<open>\<^verbatim>\<open>utf8.DecodeRuneInString\<close> on a non-empty string of bytes: the rune and its
  width; an ill-formed or truncated sequence reads as \<^verbatim>\<open>RuneError\<close> of width 1.\<close>

definition RuneError :: nat where
  "RuneError = 65533"

definition continuation :: "nat \<Rightarrow> bool" where
  "continuation b = (128 \<le> b \<and> b \<le> 191)"

definition acceptLo :: "nat \<Rightarrow> nat" where
  "acceptLo s0 = (if s0 = 224 then 160 else if s0 = 240 then 144 else 128)"

definition acceptHi :: "nat \<Rightarrow> nat" where
  "acceptHi s0 = (if s0 = 237 then 159 else if s0 = 244 then 143 else 191)"

definition DecodeRune :: "nat list \<Rightarrow> nat \<times> nat" where
  "DecodeRune s =
   (case s of
      [] \<Rightarrow> (RuneError, 0)
    | s0 # rest \<Rightarrow>
     (if s0 < 128 then (s0, 1)
      else if 194 \<le> s0 \<and> s0 \<le> 223 then
        (case rest of
           s1 # _ \<Rightarrow>
             if acceptLo s0 \<le> s1 \<and> s1 \<le> acceptHi s0
             then ((s0 - 192) * 64 + (s1 - 128), 2)
             else (RuneError, 1)
         | _ \<Rightarrow> (RuneError, 1))
      else if 224 \<le> s0 \<and> s0 \<le> 239 then
        (case rest of
           s1 # s2 # _ \<Rightarrow>
             if acceptLo s0 \<le> s1 \<and> s1 \<le> acceptHi s0 \<and> continuation s2
             then ((s0 - 224) * 4096 + (s1 - 128) * 64 + (s2 - 128), 3)
             else (RuneError, 1)
         | _ \<Rightarrow> (RuneError, 1))
      else if 240 \<le> s0 \<and> s0 \<le> 244 then
        (case rest of
           s1 # s2 # s3 # _ \<Rightarrow>
             if acceptLo s0 \<le> s1 \<and> s1 \<le> acceptHi s0 \<and> continuation s2
                \<and> continuation s3
             then ((s0 - 240) * 262144 + (s1 - 128) * 4096 + (s2 - 128) * 64 + (s3 - 128), 4)
             else (RuneError, 1)
         | _ \<Rightarrow> (RuneError, 1))
      else (RuneError, 1)))"

text \<open>The runes a \<^verbatim>\<open>range\<close> loop over a string visits.\<close>

fun runes :: "nat list \<Rightarrow> nat list" where
  "runes [] = []"
| "runes (s0 # rest) =
     fst (DecodeRune (s0 # rest)) # runes (drop (snd (DecodeRune (s0 # rest)) - 1) rest)"

text \<open>\<^verbatim>\<open>unicode.SimpleFold\<close> on the ASCII runes and on the two runes it sends back to
  them: the orbits \<open>K k U+212A\<close> and \<open>S s U+017F\<close>, the two cases of every other
  letter, and every other ASCII rune alone.\<close>

definition asciiFold :: "nat \<Rightarrow> nat" where
  "asciiFold r =
     (if r = 75 then 107 else if r = 107 then 8490 else if r = 8490 then 75
      else if r = 83 then 115 else if r = 115 then 383 else if r = 383 then 83
      else if 65 \<le> r \<and> r \<le> 90 then r + 32
      else if 97 \<le> r \<and> r \<le> 122 then r - 32
      else r)"

text \<open>The walk \<^verbatim>\<open>r := SimpleFold(sr); for r != sr && r < tr { r = SimpleFold(r) }\<close> and
  its test \<^verbatim>\<open>r == tr\<close>, for runes \<open>sr < tr\<close> with \<open>tr\<close> not ASCII. From an ASCII rune
  the loop is unrolled twice, after which it has ended (\<open>asciiWalk_ended\<close> below);
  from any other rune the answer is the table's.\<close>

definition simpleFoldWalk :: "unicode \<Rightarrow> nat \<Rightarrow> nat \<Rightarrow> bool" where
  "simpleFoldWalk U sr tr =
     (if sr < 128 then
        (let r1 = asciiFold sr;
             r2 = (if r1 \<noteq> sr \<and> r1 < tr then asciiFold r1 else r1);
             r3 = (if r2 \<noteq> sr \<and> r2 < tr then asciiFold r2 else r2)
         in r3 = tr)
      else foldsTo U sr tr)"

text \<open>The comparison of two runes in the rune loop of \<^verbatim>\<open>strings.EqualFold\<close>.\<close>

definition runesFold :: "unicode \<Rightarrow> nat \<Rightarrow> nat \<Rightarrow> bool" where
  "runesFold U sr0 tr0 =
     (if tr0 = sr0 then True
      else let sr = (if tr0 < sr0 then tr0 else sr0); tr = (if tr0 < sr0 then sr0 else tr0) in
        if tr < 128 then 65 \<le> sr \<and> sr \<le> 90 \<and> tr = sr + 32
        else simpleFoldWalk U sr tr)"

text \<open>The rune loop of \<^verbatim>\<open>strings.EqualFold\<close> (after \<^verbatim>\<open>hasUnicode\<close>), on the runes
  of the two remaining strings.\<close>

fun EqualFold_runes :: "unicode \<Rightarrow> nat list \<Rightarrow> nat list \<Rightarrow> bool" where
  "EqualFold_runes U [] ts = (ts = [])"
| "EqualFold_runes U (sr # ss) [] = False"
| "EqualFold_runes U (sr # ss) (tr # ts) =
     (if runesFold U sr tr then EqualFold_runes U ss ts else False)"

text \<open>The byte loop of \<^verbatim>\<open>strings.EqualFold\<close>: equal bytes, or an upper-case letter
  and the byte 32 above it; at the first byte outside ASCII, in either string, the
  rest of both strings goes to the rune loop.\<close>

fun EqualFold_bytes :: "unicode \<Rightarrow> nat list \<Rightarrow> nat list \<Rightarrow> bool" where
  "EqualFold_bytes U [] t = (t = [])"
| "EqualFold_bytes U (sr # s) [] = False"
| "EqualFold_bytes U (sr # s) (tr # t) =
     (if 128 \<le> sr \<or> 128 \<le> tr then EqualFold_runes U (runes (sr # s)) (runes (tr # t))
      else if tr = sr then EqualFold_bytes U s t
      else let lo = (if tr < sr then tr else sr); hi = (if tr < sr then sr else tr) in
        if 65 \<le> lo \<and> lo \<le> 90 \<and> hi = lo + 32 then EqualFold_bytes U s t else False)"

definition EqualFold :: "unicode \<Rightarrow> string \<Rightarrow> string \<Rightarrow> bool" where
  "EqualFold U s t = EqualFold_bytes U (map of_char s) (map of_char t)"

section \<open>Labels and time\<close>

fun hasLabel_range :: "unicode \<Rightarrow> string list \<Rightarrow> string \<Rightarrow> bool" where
  "hasLabel_range U [] labelName = False"
| "hasLabel_range U (label # rest) labelName =
     (if EqualFold U label labelName then True else hasLabel_range U rest labelName)"

definition hasLabel :: "unicode \<Rightarrow> pull_request \<Rightarrow> string \<Rightarrow> bool" where
  "hasLabel U pr labelName = hasLabel_range U (labels pr) labelName"

definition Hour :: duration where
  "Hour = 3600000000000"

definition maxDuration :: duration where
  "maxDuration = 9223372036854775807"

definition minDuration :: duration where
  "minDuration = - 9223372036854775808"

text \<open>\<^verbatim>\<open>time.Duration(days) * 24 * time.Hour\<close>, in 64-bit arithmetic.\<close>

definition daysDuration :: "int64 \<Rightarrow> duration" where
  "daysDuration days = days * 24 * Hour"

definition Before :: "instant \<Rightarrow> instant \<Rightarrow> bool" where
  "Before t u = (t < u)"

definition Add :: "instant \<Rightarrow> duration \<Rightarrow> instant" where
  "Add t d = t + sint d"

text \<open>\<^verbatim>\<open>Time.Sub\<close>: the difference, or the largest or smallest duration when the
  difference does not fit.\<close>

definition Sub :: "instant \<Rightarrow> instant \<Rightarrow> duration" where
  "Sub t u =
     (if sint maxDuration < t - u then maxDuration
      else if t - u < sint minDuration then minDuration
      else word_of_int (t - u))"

text \<open>\<^verbatim>\<open>time.Since\<close> reads the clock; the reading is the \<open>clock\<close> of the responses.\<close>

definition timeSinceLabel :: "responses \<Rightarrow> pull_request \<Rightarrow> duration" where
  "timeSinceLabel R pr = Sub (clock R) (updatedAt pr)"

section \<open>Recipient and notices\<close>

text \<open>The global \<^verbatim>\<open>fallbackEmailDomain\<close> is the first argument.\<close>

definition getEmailFromGitHubUser :: "unicode \<Rightarrow> string \<Rightarrow> user \<Rightarrow> string" where
  "getEmailFromGitHubUser U fallbackEmailDomain u =
     (if email u \<noteq> [] then email u
      else ToLower U (login u) @ ''@'' @ fallbackEmailDomain)"

text \<open>Every operation takes the trace so far and returns its error value with the
  extended trace.\<close>

definition sendEmail :: "responses \<Rightarrow> string \<Rightarrow> notice \<Rightarrow> int \<Rightarrow> event list
    \<Rightarrow> error option \<times> event list" where
  "sendEmail R toEmail kind n tr =
     (sendEmail_err R, tr @ [(SendEmail toEmail kind n, sendEmail_err R)])"

definition warnPRAuthor :: "unicode \<Rightarrow> string \<Rightarrow> responses \<Rightarrow> pull_request \<Rightarrow> event list
    \<Rightarrow> error option \<times> event list" where
  "warnPRAuthor U domain R pr tr =
     (let emailAddress = getEmailFromGitHubUser U domain (author pr) in
      if emailAddress = [] then (None, tr)
      else sendEmail R emailAddress StaleWarning (number pr) tr)"

definition notifyPRClosure :: "unicode \<Rightarrow> string \<Rightarrow> responses \<Rightarrow> pull_request \<Rightarrow> event list
    \<Rightarrow> error option \<times> event list" where
  "notifyPRClosure U domain R pr tr =
     (let emailAddress = getEmailFromGitHubUser U domain (author pr) in
      if emailAddress = [] then (None, tr)
      else sendEmail R emailAddress ClosureNotice (number pr) tr)"

definition closePR :: "responses \<Rightarrow> string \<Rightarrow> string \<Rightarrow> int \<Rightarrow> event list
    \<Rightarrow> error option \<times> event list" where
  "closePR R ow rp prNumber tr =
     (closePR_err R, tr @ [(PullRequestsEdit ow rp prNumber ''closed'', closePR_err R)])"

definition addWarningLabel :: "responses \<Rightarrow> string \<Rightarrow> string \<Rightarrow> int \<Rightarrow> event list
    \<Rightarrow> error option \<times> event list" where
  "addWarningLabel R ow rp prNumber tr =
     (addLabel_err R,
      tr @ [(AddLabelsToIssue ow rp prNumber [''stale-warning''], addLabel_err R)])"

definition removeLabel :: "responses \<Rightarrow> string \<Rightarrow> string \<Rightarrow> int \<Rightarrow> string \<Rightarrow> event list
    \<Rightarrow> error option \<times> event list" where
  "removeLabel R ow rp prNumber labelName tr =
     (removeLabel_err R,
      tr @ [(RemoveLabelForIssue ow rp prNumber labelName, removeLabel_err R)])"

section \<open>The decision procedure\<close>

text \<open>The body of the loop over the open pull requests. The log lines are left out; an
  error that the source only prints leaves the trace as the failed call made it.\<close>

definition process_pr :: "unicode \<Rightarrow> config \<Rightarrow> instant \<Rightarrow> pull_request \<Rightarrow> responses \<Rightarrow> event list
    \<Rightarrow> event list" where
  "process_pr U cfg staleCutoff pr R tr =
     (if hasLabel U pr ''do not stale'' then
        (if hasLabel U pr ''stale-warning''
         then snd (removeLabel R (owner cfg) (repo cfg) (number pr) ''stale-warning'' tr)
         else tr)
      else if Before (updatedAt pr) staleCutoff then
        (if hasLabel U pr ''stale-warning'' then
           (if sint (daysDuration (warningPeriod cfg)) < sint (timeSinceLabel R pr) then
              (case closePR R (owner cfg) (repo cfg) (number pr) tr of
                 (Some err, tr') \<Rightarrow> tr'
               | (None, tr') \<Rightarrow> snd (notifyPRClosure U (emailDomain cfg) R pr tr'))
            else tr)
         else
           (case warnPRAuthor U (emailDomain cfg) R pr tr of
              (Some err, tr') \<Rightarrow> tr'
            | (None, tr') \<Rightarrow> snd (addWarningLabel R (owner cfg) (repo cfg) (number pr) tr')))
      else
        (if hasLabel U pr ''stale-warning''
         then snd (removeLabel R (owner cfg) (repo cfg) (number pr) ''stale-warning'' tr)
         else tr))"

text \<open>The loop: the \<open>i\<close>-th pull request of the run meets the \<open>i\<close>-th responses.\<close>

fun process_prs :: "unicode \<Rightarrow> config \<Rightarrow> instant \<Rightarrow> pull_request list \<Rightarrow> (nat \<Rightarrow> responses) \<Rightarrow> nat
    \<Rightarrow> event list \<Rightarrow> event list" where
  "process_prs U cfg staleCutoff [] Rs i tr = tr"
| "process_prs U cfg staleCutoff (pr # prs) Rs i tr =
     process_prs U cfg staleCutoff prs Rs (Suc i) (process_pr U cfg staleCutoff pr (Rs i) tr)"

section \<open>Configuration\<close>

text \<open>\<^verbatim>\<open>strconv.Atoi\<close>: an optional sign and at least one decimal digit, with a value
  that fits the 64-bit \<^verbatim>\<open>int\<close>; anything else is an error.\<close>

definition isDigit :: "char \<Rightarrow> bool" where
  "isDigit c = (48 \<le> (of_char c :: nat) \<and> (of_char c :: nat) \<le> 57)"

fun parseDigits :: "string \<Rightarrow> nat \<Rightarrow> nat option" where
  "parseDigits [] n = Some n"
| "parseDigits (ch # s) n =
     (if isDigit ch then parseDigits s (n * 10 + ((of_char ch :: nat) - 48)) else None)"

definition Atoi :: "string \<Rightarrow> int64 option" where
  "Atoi s0 =
     (case s0 of
        [] \<Rightarrow> None
      | c # rest \<Rightarrow>
          (let s = (if c = CHR ''-'' \<or> c = CHR ''+'' then rest else s0) in
           if s = [] then None
           else case parseDigits s 0 of
                  None \<Rightarrow> None
                | Some n \<Rightarrow>
                    (let v = (if c = CHR ''-'' then - int n else int n) in
                     if - (2 ^ 63) \<le> v \<and> v < 2 ^ 63 then Some (word_of_int v) else None)))"

text \<open>The process environment, as \<^verbatim>\<open>os.Getenv\<close> reads it after the optional
  \<^verbatim>\<open>.env\<close> file is loaded: an unset variable reads as the empty string.\<close>

type_synonym environ = "string \<Rightarrow> string"

definition defaultDaysInactive :: "environ \<Rightarrow> int64" where
  "defaultDaysInactive getenv =
     (let v = getenv ''DAYS_INACTIVE'' in
      if v \<noteq> [] then (case Atoi v of Some n \<Rightarrow> n | None \<Rightarrow> 0) else 0)"

definition defaultWarningPeriod :: "environ \<Rightarrow> int64" where
  "defaultWarningPeriod getenv =
     (let v = getenv ''WARNING_PERIOD'' in
      if v \<noteq> [] then (case Atoi v of Some n \<Rightarrow> n | None \<Rightarrow> 0) else 0)"

definition defaultSMTPPort :: "environ \<Rightarrow> int64" where
  "defaultSMTPPort getenv =
     (let v = getenv ''SMTP_PORT'' in
      if v \<noteq> [] then (case Atoi v of Some n \<Rightarrow> n | None \<Rightarrow> 587) else 587)"

definition defaultEmailDomain :: "environ \<Rightarrow> string" where
  "defaultEmailDomain getenv =
     (if getenv ''EMAIL_DOMAIN'' = [] then ''example.com'' else getenv ''EMAIL_DOMAIN'')"

text \<open>The command line, already split into flags of the right type: \<open>None\<close> for a flag
  that was not given. A command line that \<^verbatim>\<open>flag.Parse\<close> rejects is not modelled.\<close>

record flags =
  githubTokenFlag :: "string option"
  githubBaseURLFlag :: "string option"
  ownerFlag :: "string option"
  repoFlag :: "string option"
  daysInactiveFlag :: "int64 option"
  warningPeriodFlag :: "int64 option"
  smtpServerFlag :: "string option"
  smtpPortFlag :: "int64 option"
  smtpUserFlag :: "string option"
  smtpPasswordFlag :: "string option"
  emailDomainFlag :: "string option"

definition flagValue :: "'a option \<Rightarrow> 'a \<Rightarrow> 'a" where
  "flagValue given dflt = (case given of Some v \<Rightarrow> v | None \<Rightarrow> dflt)"

definition main_config :: "environ \<Rightarrow> flags \<Rightarrow> config" where
  "main_config getenv fl =
     \<lparr> githubToken = flagValue (githubTokenFlag fl) (getenv ''GITHUB_TOKEN''),
       githubBaseURL = flagValue (githubBaseURLFlag fl) (getenv ''GITHUB_BASE_URL''),
       owner = flagValue (ownerFlag fl) (getenv ''GITHUB_OWNER''),
       repo = flagValue (repoFlag fl) (getenv ''GITHUB_REPO''),
       daysInactive = flagValue (daysInactiveFlag fl) (defaultDaysInactive getenv),
       warningPeriod = flagValue (warningPeriodFlag fl) (defaultWarningPeriod getenv),
       smtpServer = flagValue (smtpServerFlag fl) (getenv ''SMTP_SERVER''),
       smtpPort = flagValue (smtpPortFlag fl) (defaultSMTPPort getenv),
       smtpUser = flagValue (smtpUserFlag fl) (getenv ''SMTP_USER''),
       smtpPassword = flagValue (smtpPasswordFlag fl) (getenv ''SMTP_PASSWORD''),
       emailDomain = flagValue (emailDomainFlag fl) (defaultEmailDomain getenv) \<rparr>"

text \<open>The condition of the "simple sanity check": true when the process stops.\<close>

definition missingParameter :: "config \<Rightarrow> bool" where
  "missingParameter cfg =
     (githubToken cfg = [] \<or> githubBaseURL cfg = [] \<or> owner cfg = [] \<or> repo cfg = []
      \<or> sint (daysInactive cfg) \<le> 0 \<or> sint (warningPeriod cfg) \<le> 0
      \<or> smtpServer cfg = [] \<or> smtpUser cfg = [] \<or> smtpPassword cfg = [])"

section \<open>The run\<close>

text \<open>
  The outside world of one run: whether \<^verbatim>\<open>url.Parse\<close> accepts a string, the answer to
  the connection test, the answer of the host to the request for each page of open pull
  requests (an error, or the page with the number of the next one, 0 after the last),
  the clock when the cutoff is computed, and the responses met by each pull request.
\<close>

record world =
  urlParse_err :: "string \<Rightarrow> error option"
  usersGet_err :: "error option"
  listPage :: "nat \<Rightarrow> error + (pull_request list \<times> nat)"
  startClock :: instant
  respond :: "nat \<Rightarrow> responses"

definition getGithubClient :: "world \<Rightarrow> string \<Rightarrow> string \<Rightarrow> error + unit" where
  "getGithubClient w token baseURL =
     (case urlParse_err w baseURL of
        Some err \<Rightarrow> Inl err
      | None \<Rightarrow>
          (case urlParse_err w (baseURL @ ''upload/'') of
             Some err \<Rightarrow> Inl err
           | None \<Rightarrow> Inr ()))"

definition testGitHubConnection :: "world \<Rightarrow> event list \<Rightarrow> error option \<times> event list" where
  "testGitHubConnection w tr = (usersGet_err w, tr @ [(UsersGet, usersGet_err w)])"

text \<open>The pagination loop of \<^verbatim>\<open>getOpenPRs\<close>. Nothing bounds the number of pages the
  host announces, so the loop is a partial function: \<open>None\<close> when it never ends.\<close>

partial_function (option) getOpenPRs_loop :: "world \<Rightarrow> string \<Rightarrow> string \<Rightarrow> nat
    \<Rightarrow> pull_request list \<Rightarrow> event list \<Rightarrow> ((error + pull_request list) \<times> event list) option"
  where
  "getOpenPRs_loop w ow rp page allPRs tr =
     (case listPage w page of
        Inl err \<Rightarrow> Some (Inl err, tr @ [(PullRequestsList ow rp page, Some err)])
      | Inr (prs, nextPage) \<Rightarrow>
          if nextPage = 0
          then Some (Inr (allPRs @ prs), tr @ [(PullRequestsList ow rp page, None)])
          else getOpenPRs_loop w ow rp nextPage (allPRs @ prs)
                 (tr @ [(PullRequestsList ow rp page, None)]))"

definition getOpenPRs :: "world \<Rightarrow> string \<Rightarrow> string \<Rightarrow> event list
    \<Rightarrow> ((error + pull_request list) \<times> event list) option" where
  "getOpenPRs w ow rp tr = getOpenPRs_loop w ow rp 0 [] tr"

definition staleDuration :: "config \<Rightarrow> duration" where
  "staleDuration cfg = daysDuration (daysInactive cfg)"

definition staleCutoff :: "config \<Rightarrow> instant \<Rightarrow> instant" where
  "staleCutoff cfg now = Add now (- staleDuration cfg)"

text \<open>How the process ends: \<^verbatim>\<open>log.Fatal\<close> at one of the four places, or the return
  from \<^verbatim>\<open>main\<close>.\<close>

datatype fatal =
    MissingParameter
  | ClientError error
  | ConnectionTestFailed error
  | FetchFailed error

datatype exit = Fatal fatal | Returned

text \<open>\<^verbatim>\<open>main\<close> after \<^verbatim>\<open>flag.Parse\<close>: the way the process ends and the trace of its
  requests, or \<open>None\<close> when the pagination never ends.\<close>

definition main_run :: "unicode \<Rightarrow> config \<Rightarrow> world \<Rightarrow> (exit \<times> event list) option" where
  "main_run U cfg w =
     (if missingParameter cfg then Some (Fatal MissingParameter, [])
      else case getGithubClient w (githubToken cfg) (githubBaseURL cfg) of
        Inl err \<Rightarrow> Some (Fatal (ClientError err), [])
      | Inr client \<Rightarrow>
          (case testGitHubConnection w [] of
             (Some err, tr) \<Rightarrow> Some (Fatal (ConnectionTestFailed err), tr)
           | (None, tr) \<Rightarrow>
               (case getOpenPRs w (owner cfg) (repo cfg) tr of
                  None \<Rightarrow> None
                | Some (Inl err, tr') \<Rightarrow> Some (Fatal (FetchFailed err), tr')
                | Some (Inr openPRs, tr') \<Rightarrow>
                    if openPRs = [] then Some (Returned, tr')
                    else Some (Returned,
                      process_prs U cfg (staleCutoff cfg (startClock w)) openPRs
                        (respond w) 0 tr'))))"

definition main :: "unicode \<Rightarrow> environ \<Rightarrow> flags \<Rightarrow> world \<Rightarrow> (exit \<times> event list) option" where
  "main U getenv fl w = main_run U (main_config getenv fl) w"

section \<open>Vocabulary of the properties\<close>

text \<open>A numeric value, in the sense of the configuration variables: an optional sign
  followed by at least one decimal digit.\<close>

definition isNumeric :: "string \<Rightarrow> bool" where
  "isNumeric s =
     (case s of
        [] \<Rightarrow> False
      | c # rest \<Rightarrow>
          (let ds = (if c = CHR ''-'' \<or> c = CHR ''+'' then rest else s) in
           ds \<noteq> [] \<and> list_all isDigit ds))"

text \<open>
  A label name that differs from an ASCII name only in the case of letters, or not at
  all: rune by rune, the two are equal or the two cases of one letter. Under Go's simple
  case folding the long s (U+017F) is a case of \<open>s\<close> and the Kelvin sign (U+212A) a
  case of \<open>k\<close>.
\<close>

definition sameLetter :: "nat \<Rightarrow> nat \<Rightarrow> bool" where
  "sameLetter r c =
     (r = c
      \<or> (65 \<le> r \<and> r \<le> 90 \<and> c = r + 32)
      \<or> (65 \<le> c \<and> c \<le> 90 \<and> r = c + 32)
      \<or> (r = 8490 \<and> (c = 75 \<or> c = 107))
      \<or> (r = 383 \<and> (c = 83 \<or> c = 115)))"

definition caseVariant :: "string \<Rightarrow> string \<Rightarrow> bool" where
  "caseVariant name sentinel =
     list_all2 sameLetter (runes (map of_char name)) (map of_char sentinel)"

text \<open>The requests that only read from the repository host.\<close>

definition readOnly :: "request \<Rightarrow> bool" where
  "readOnly r =
     (case r of UsersGet \<Rightarrow> True | PullRequestsList ow rp page \<Rightarrow> True | _ \<Rightarrow> False)"

section \<open>Scenarios\<close>

text \<open>The configuration and the pull requests of the scenarios: thresholds of 30 and 7
  days, the clock at 2024-06-01T00:00:00Z, pull requests last updated on 2024-04-01
  (number 12 and 14) and on 2024-05-30 (number 13).\<close>

text \<open>Tables that fold and lower-case nothing outside ASCII. The scenarios compare
  label names with ASCII names and lower-case ASCII handles, for which no table is
  consulted (\<open>process_pr_tables\<close> below): what they show holds for every table.\<close>

definition ascii_tables :: unicode where
  "ascii_tables = \<lparr> foldsTo = (\<lambda>sr tr. False), mapToLower = (\<lambda>s. s) \<rparr>"

text \<open>The name \<^verbatim>\<open>stale-warning\<close> written with a long s (U+017F, the bytes C5 BF).\<close>

definition long_s_warning :: string where
  "long_s_warning = [CHR 0xC5, CHR 0xBF] @ ''tale-warning''"

text \<open>The name \<^verbatim>\<open>do not stale\<close> written with a long s.\<close>

definition long_s_opt_out :: string where
  "long_s_opt_out = ''do not '' @ [CHR 0xC5, CHR 0xBF] @ ''tale''"

definition cfg_30_7 :: config where
  "cfg_30_7 =
     \<lparr> githubToken = ''t0ken'', githubBaseURL = ''https://api.github.com/'',
       owner = ''acme'', repo = ''widgets'', daysInactive = 30, warningPeriod = 7,
       smtpServer = ''smtp.example.com'', smtpPort = 587, smtpUser = ''bot@example.com'',
       smtpPassword = ''secret'', emailDomain = ''example.com'' \<rparr>"

definition june1 :: instant where
  "june1 = 1717200000000000000"

definition bob :: user where
  "bob = \<lparr> login = ''Bob'', email = [] \<rparr>"

definition alice :: user where
  "alice = \<lparr> login = ''Alice'', email = ''a@b.com'' \<rparr>"

definition ghost :: user where
  "ghost = \<lparr> login = [], email = [] \<rparr>"

definition pr12 :: pull_request where
  "pr12 = \<lparr> number = 12, title = ''Add parser'', author = bob,
            updatedAt = 1711929600000000000, labels = [],
            htmlURL = ''https://github.com/acme/widgets/pull/12'' \<rparr>"

definition pr13 :: pull_request where
  "pr13 = \<lparr> number = 13, title = ''Fix typo'', author = alice,
            updatedAt = 1717027200000000000, labels = [''stale-warning''],
            htmlURL = ''https://github.com/acme/widgets/pull/13'' \<rparr>"

definition pr14 :: pull_request where
  "pr14 = \<lparr> number = 14, title = ''Long-running work'', author = bob,
            updatedAt = 1711929600000000000, labels = [''do not stale'', ''stale-warning''],
            htmlURL = ''https://github.com/acme/widgets/pull/14'' \<rparr>"

definition all_ok :: responses where
  "all_ok = \<lparr> clock = june1, removeLabel_err = None, closePR_err = None,
              addLabel_err = None, sendEmail_err = None \<rparr>"

text \<open>A host that serves the first page of open pull requests, announces page 2 and
  fails on it.\<close>

definition world_page2_fails :: world where
  "world_page2_fails =
     \<lparr> urlParse_err = (\<lambda>s. None), usersGet_err = None,
       listPage = (\<lambda>page. if page = 0 then Inr ([pr12], 2) else Inl (Error ''502'')),
       startClock = june1, respond = (\<lambda>i. all_ok) \<rparr>"

text \<open>An empty environment and a command line without flags.\<close>

definition no_env :: environ where
  "no_env = (\<lambda>name. [])"

definition no_flags :: flags where
  "no_flags =
     \<lparr> githubTokenFlag = None, githubBaseURLFlag = None, ownerFlag = None, repoFlag = None,
       daysInactiveFlag = None, warningPeriodFlag = None, smtpServerFlag = None,
       smtpPortFlag = None, smtpUserFlag = None, smtpPasswordFlag = None,
       emailDomainFlag = None \<rparr>"

text \<open>A host and a mail transport that serve the list of open pull requests on one
  page and then refuse every request.\<close>

definition all_fail :: responses where
  "all_fail = \<lparr> clock = june1, removeLabel_err = Some (Error ''404''),
                closePR_err = Some (Error ''403''), addLabel_err = Some (Error ''403''),
                sendEmail_err = Some (Error ''dial tcp: timeout'') \<rparr>"

definition world_requests_fail :: world where
  "world_requests_fail =
     \<lparr> urlParse_err = (\<lambda>s. None), usersGet_err = None,
       listPage = (\<lambda>page. Inr ([pr12, pr13], 0)),
       startClock = june1, respond = (\<lambda>i. all_fail) \<rparr>"

section \<open>Auxiliary facts\<close>

subsection \<open>Durations\<close>

lemma sint_word_of_int_64:
  assumes "- (2 ^ 63) \<le> k" "k < 2 ^ 63"
  shows "sint (word_of_int k :: 64 word) = k"
proof -
  have "signed_take_bit (63::nat) k = k"
    using assms by (intro signed_take_bit_int_eq_self) simp_all
  then show ?thesis by (simp add: sint_sbintrunc')
qed

lemma daysDuration_of_int: "daysDuration d = word_of_int (sint d * 86400000000000)"
proof -
  have "daysDuration d = word_of_int (sint d) * word_of_int 86400000000000"
    by (simp add: daysDuration_def Hour_def)
  also have "\<dots> = word_of_int (sint d * 86400000000000)"
    by (simp only: wi_hom_mult)
  finally show ?thesis .
qed

text \<open>Up to 106751 days the product fits: \<open>106751 * 86400000000000 < 2 ^ 63\<close>, and
  106752 days do not.\<close>

lemma sint_daysDuration:
  assumes "- 106751 \<le> sint d" "sint d \<le> 106751"
  shows "sint (daysDuration d) = sint d * 86400000000000"
proof -
  have "sint (word_of_int (sint d * 86400000000000) :: 64 word)
      = sint d * 86400000000000"
    using assms by (intro sint_word_of_int_64) simp_all
  then show ?thesis by (simp only: daysDuration_of_int)
qed

text \<open>Against a threshold below the largest duration, the saturated difference
  compares as the exact one.\<close>

lemma sint_Sub_gt:
  assumes "- (2 ^ 63) \<le> k" "k < 2 ^ 63 - 1"
  shows "(k < sint (Sub t u)) = (k < t - u)"
proof -
  consider "sint maxDuration < t - u" | "t - u < sint minDuration"
    | "sint minDuration \<le> t - u" "t - u \<le> sint maxDuration"
    by linarith
  then show ?thesis
  proof cases
    case 1
    then show ?thesis using assms by (simp add: Sub_def maxDuration_def)
  next
    case 2
    then show ?thesis using assms by (simp add: Sub_def maxDuration_def minDuration_def)
  next
    case 3
    then have "sint (word_of_int (t - u) :: 64 word) = t - u"
      by (intro sint_word_of_int_64) (simp_all add: maxDuration_def minDuration_def)
    with 3 show ?thesis by (simp add: Sub_def)
  qed
qed

lemma warning_period_elapsed:
  assumes "- 106751 \<le> sint (warningPeriod cfg)" "sint (warningPeriod cfg) \<le> 106751"
  shows "(sint (daysDuration (warningPeriod cfg)) < sint (timeSinceLabel R pr))
    = (sint (warningPeriod cfg) * 86400000000000 < clock R - updatedAt pr)"
proof -
  have "sint (daysDuration (warningPeriod cfg)) = sint (warningPeriod cfg) * 86400000000000"
    using assms by (intro sint_daysDuration) simp_all
  then show ?thesis
    unfolding timeSinceLabel_def using assms by (simp only:) (intro sint_Sub_gt, simp_all)
qed

lemma staleCutoff_in_range:
  assumes "- 106751 \<le> sint (daysInactive cfg)" "sint (daysInactive cfg) \<le> 106751"
  shows "staleCutoff cfg now = now - sint (daysInactive cfg) * 86400000000000"
proof -
  have "daysDuration (daysInactive cfg) = word_of_int (sint (daysInactive cfg) * 86400000000000)"
    by (rule daysDuration_of_int)
  then have "- daysDuration (daysInactive cfg)
      = word_of_int (- (sint (daysInactive cfg) * 86400000000000))"
    by (simp only: wi_hom_neg)
  moreover have "sint (word_of_int (- (sint (daysInactive cfg) * 86400000000000)) :: 64 word)
      = - (sint (daysInactive cfg) * 86400000000000)"
    using assms by (intro sint_word_of_int_64) simp_all
  ultimately show ?thesis
    by (simp add: staleCutoff_def staleDuration_def Add_def)
qed

text \<open>Under a positive threshold, a pull request last updated before the clock
  minus the threshold in days is judged stale by the loop, also when the 64-bit
  product has wrapped around: the cutoff of the loop is then later, never earlier.\<close>

lemma stale_by_days_judged_stale:
  assumes "0 < sint (daysInactive cfg)"
    and "updatedAt pr < now - sint (daysInactive cfg) * 86400000000000"
  shows "Before (updatedAt pr) (staleCutoff cfg now)"
proof (cases "sint (daysInactive cfg) \<le> 106751")
  case True
  with assms(1) have "staleCutoff cfg now = now - sint (daysInactive cfg) * 86400000000000"
    by (intro staleCutoff_in_range) simp_all
  with assms(2) show ?thesis by (simp add: Before_def)
next
  case False
  then have "2 ^ 63 \<le> sint (daysInactive cfg) * 86400000000000"
    by simp
  moreover have "- (2 ^ 63) \<le> sint (- staleDuration cfg)"
    using sint_ge [of "- staleDuration cfg"] by simp
  ultimately have "now - sint (daysInactive cfg) * 86400000000000 \<le> staleCutoff cfg now"
    by (simp add: staleCutoff_def Add_def)
  with assms(2) show ?thesis by (simp add: Before_def)
qed

subsection \<open>The branches of the loop body\<close>

lemma getEmail_nonempty: "getEmailFromGitHubUser U d u \<noteq> []"
  by (simp add: getEmailFromGitHubUser_def)

lemma process_pr_append: "process_pr U cfg c pr R tr = tr @ process_pr U cfg c pr R []"
  by (simp add: process_pr_def removeLabel_def closePR_def notifyPRClosure_def warnPRAuthor_def
      addWarningLabel_def sendEmail_def Let_def split: option.splits)

lemma warned_branch:
  assumes "\<not> hasLabel U pr ''do not stale''"
    and "Before (updatedAt pr) cutoff"
    and "hasLabel U pr ''stale-warning''"
  shows "process_pr U cfg cutoff pr R tr =
    tr @ (if sint (daysDuration (warningPeriod cfg)) < sint (timeSinceLabel R pr)
          then (PullRequestsEdit (owner cfg) (repo cfg) (number pr) ''closed'', closePR_err R)
               # (if closePR_err R = None
                  then [(SendEmail (getEmailFromGitHubUser U (emailDomain cfg) (author pr))
                           ClosureNotice (number pr), sendEmail_err R)]
                  else [])
          else [])"
  using assms
  by (simp add: process_pr_def closePR_def notifyPRClosure_def sendEmail_def
      getEmail_nonempty Let_def split: option.splits)

lemma process_prs_concat:
  "process_prs U cfg c prs Rs i tr =
     tr @ concat (map (\<lambda>(k, pr). process_pr U cfg c pr (Rs k) []) (enumerate i prs))"
proof (induction prs arbitrary: i tr)
  case Nil
  then show ?case by simp
next
  case (Cons pr prs)
  show ?case
    by (simp add: Cons.IH) (subst process_pr_append, simp)
qed

subsection \<open>Letter case\<close>

lemma asciiFold_cases:
  assumes "(sr::nat) < 128"
  obtains (K) "sr = 75" | (k) "sr = 107" | (S) "sr = 83" | (s) "sr = 115"
  | (upper) "65 \<le> sr" "sr \<le> 90" "sr \<noteq> 75" "sr \<noteq> 83"
  | (lower) "97 \<le> sr" "sr \<le> 122" "sr \<noteq> 107" "sr \<noteq> 115"
  | (other) "sr < 65 \<or> (90 < sr \<and> sr < 97) \<or> 122 < sr"
  using assms by atomize_elim arith

lemma asciiFold_upper:
  assumes "65 \<le> sr" "sr \<le> 90" "sr \<noteq> 75" "sr \<noteq> 83"
  shows "asciiFold sr = sr + 32" "asciiFold (sr + 32) = sr"
  using assms by (auto simp: asciiFold_def)

lemma asciiFold_lower:
  assumes "97 \<le> sr" "sr \<le> 122" "sr \<noteq> 107" "sr \<noteq> 115"
  shows "asciiFold sr = sr - 32" "asciiFold (sr - 32) = sr"
  using assms by (auto simp: asciiFold_def)

lemma asciiFold_other:
  assumes "sr < 65 \<or> (90 < sr \<and> sr < 97) \<or> (122 < sr \<and> sr < 128)"
  shows "asciiFold sr = sr"
  using assms by (auto simp: asciiFold_def)

lemma asciiFold_orbits:
  "asciiFold 75 = 107" "asciiFold 107 = 8490" "asciiFold 8490 = 75"
  "asciiFold 83 = 115" "asciiFold 115 = 383" "asciiFold 383 = 83"
  by (simp_all add: asciiFold_def)

text \<open>From an ASCII rune the walk along the fold is over after two more steps: the
  loop condition is false for the rune the unrolled loop stops at.\<close>

lemma asciiWalk_ended:
  assumes "sr < 128" "128 \<le> tr"
  shows "let r1 = asciiFold sr;
             r2 = (if r1 \<noteq> sr \<and> r1 < tr then asciiFold r1 else r1);
             r3 = (if r2 \<noteq> sr \<and> r2 < tr then asciiFold r2 else r2)
         in \<not> (r3 \<noteq> sr \<and> r3 < tr)"
  using assms(1)
proof (cases rule: asciiFold_cases)
  case K
  then show ?thesis using assms(2) by (simp add: asciiFold_orbits Let_def)
next
  case k
  then show ?thesis using assms(2) by (simp add: asciiFold_orbits Let_def)
next
  case S
  then show ?thesis using assms(2) by (simp add: asciiFold_orbits Let_def)
next
  case s
  then show ?thesis using assms(2) by (simp add: asciiFold_orbits Let_def)
next
  case upper
  then show ?thesis using assms by (simp add: asciiFold_upper Let_def)
next
  case lower
  then show ?thesis using assms by (simp add: asciiFold_lower Let_def)
next
  case other
  with assms(1) have "asciiFold sr = sr" by (intro asciiFold_other) auto
  then show ?thesis by (simp add: Let_def)
qed

lemma simpleFoldWalk_ascii:
  assumes "sr < 128" "128 \<le> tr"
  shows "simpleFoldWalk U sr tr =
    (((sr = 75 \<or> sr = 107) \<and> tr = 8490) \<or> ((sr = 83 \<or> sr = 115) \<and> tr = 383))"
  using assms(1)
proof (cases rule: asciiFold_cases)
  case K
  then show ?thesis using assms(2) by (simp add: simpleFoldWalk_def asciiFold_orbits Let_def)
next
  case k
  then show ?thesis using assms(2) by (simp add: simpleFoldWalk_def asciiFold_orbits Let_def)
next
  case S
  then show ?thesis using assms(2) by (simp add: simpleFoldWalk_def asciiFold_orbits Let_def)
next
  case s
  then show ?thesis using assms(2) by (simp add: simpleFoldWalk_def asciiFold_orbits Let_def)
next
  case upper
  then show ?thesis using assms
    by (simp add: simpleFoldWalk_def asciiFold_upper Let_def)
next
  case lower
  then show ?thesis using assms
    by (simp add: simpleFoldWalk_def asciiFold_lower Let_def)
next
  case other
  with assms(1) have "asciiFold sr = sr" by (intro asciiFold_other) auto
  then show ?thesis using assms other
    by (auto simp: simpleFoldWalk_def Let_def)
qed

lemma runesFold_ascii:
  assumes "c < 128"
  shows "runesFold U r c = sameLetter r c"
proof (cases "r < 128")
  case True
  with assms show ?thesis
    by (auto simp: runesFold_def sameLetter_def Let_def)
next
  case False
  with assms have "runesFold U r c = simpleFoldWalk U c r"
    by (simp add: runesFold_def Let_def)
  also have "\<dots> = (((c = 75 \<or> c = 107) \<and> r = 8490) \<or> ((c = 83 \<or> c = 115) \<and> r = 383))"
    using assms False by (intro simpleFoldWalk_ascii) simp_all
  also have "\<dots> = sameLetter r c"
    using assms False by (auto simp: sameLetter_def)
  finally show ?thesis .
qed

lemma DecodeRune_ascii: "s0 < 128 \<Longrightarrow> DecodeRune (s0 # rest) = (s0, 1)"
  by (simp add: DecodeRune_def)

lemma runes_ascii_head: "s0 < 128 \<Longrightarrow> runes (s0 # rest) = s0 # runes rest"
  by (simp add: DecodeRune_ascii)

lemma runes_ascii: "list_all (\<lambda>b. b < 128) t \<Longrightarrow> runes t = t"
  by (induction t) (simp_all add: DecodeRune_ascii)

lemma EqualFold_runes_ascii:
  "list_all (\<lambda>b. b < 128) t \<Longrightarrow> EqualFold_runes U rs t = list_all2 sameLetter rs t"
proof (induction rs arbitrary: t)
  case Nil
  then show ?case by auto
next
  case (Cons r rs)
  then show ?case by (cases t) (simp_all add: runesFold_ascii)
qed

lemma sameLetter_bytes:
  assumes "a < 128" "c < 128"
  shows "sameLetter a c =
    (c = a \<or> (c < a \<and> 65 \<le> c \<and> c \<le> 90 \<and> a = c + 32)
           \<or> (\<not> c < a \<and> 65 \<le> a \<and> a \<le> 90 \<and> c = a + 32))"
  using assms by (auto simp: sameLetter_def)

lemma EqualFold_bytes_step:
  assumes "a < 128" "c < 128"
  shows "EqualFold_bytes U (a # s) (c # t) = (sameLetter a c \<and> EqualFold_bytes U s t)"
proof -
  have "EqualFold_bytes U (a # s) (c # t) =
    ((c = a \<or> (c < a \<and> 65 \<le> c \<and> c \<le> 90 \<and> a = c + 32)
           \<or> (\<not> c < a \<and> 65 \<le> a \<and> a \<le> 90 \<and> c = a + 32)) \<and> EqualFold_bytes U s t)"
    using assms by (auto simp: Let_def simp del: runes.simps)
  then show ?thesis by (simp only: sameLetter_bytes [OF assms])
qed

lemma EqualFold_bytes_ascii:
  "list_all (\<lambda>b. b < 128) t \<Longrightarrow> EqualFold_bytes U s t = list_all2 sameLetter (runes s) t"
proof (induction s arbitrary: t)
  case Nil
  then show ?case by auto
next
  case (Cons a s)
  show ?case
  proof (cases t)
    case Nil
    then show ?thesis by simp
  next
    case (Cons c t')
    with Cons.prems have c: "c < 128" and t': "list_all (\<lambda>b. b < 128) t'" by simp_all
    show ?thesis
    proof (cases "a < 128")
      case True
      then have r: "runes (a # s) = a # runes s" by (rule runes_ascii_head)
      show ?thesis
        unfolding Cons r EqualFold_bytes_step [OF True c]
        by (simp add: Cons.IH [OF t'])
    next
      case False
      have "runes (c # t') = c # t'"
        using c t' by (intro runes_ascii) simp
      with False show ?thesis
        unfolding Cons using c t'
        by (simp add: EqualFold_runes_ascii del: runes.simps)
    qed
  qed
qed

text \<open>Against an ASCII name, \<^verbatim>\<open>strings.EqualFold\<close> accepts the case variants of the
  name and nothing else, whatever the Unicode tables hold.\<close>

lemma EqualFold_caseVariant:
  "isASCII sentinel \<Longrightarrow> EqualFold U name sentinel = caseVariant name sentinel"
  by (simp add: EqualFold_def caseVariant_def isASCII_def EqualFold_bytes_ascii list_all_iff)

lemma hasLabel_range_iff:
  "isASCII sentinel \<Longrightarrow>
   hasLabel_range U ls sentinel = (\<exists>name \<in> set ls. caseVariant name sentinel)"
  by (induction ls) (auto simp: EqualFold_caseVariant)

lemma hasLabel_tables:
  "isASCII sentinel \<Longrightarrow> hasLabel U pr sentinel = hasLabel U' pr sentinel"
  by (simp add: hasLabel_def hasLabel_range_iff)

text \<open>Two names with the same ASCII lower-casing, one of them ASCII, are case
  variants.\<close>

lemma of_char_lowerByte:
  "(of_char (lowerByte c) :: nat) =
     (if 65 \<le> (of_char c :: nat) \<and> (of_char c :: nat) \<le> 90 then of_char c + 32 else of_char c)"
  by (simp add: lowerByte_def)

lemma lowerByte_sameLetter:
  assumes "lowerByte a = lowerByte b"
  shows "sameLetter (of_char a) (of_char b)"
proof -
  from assms have "(of_char (lowerByte a) :: nat) = of_char (lowerByte b)" by simp
  then show ?thesis
    by (auto simp: of_char_lowerByte sameLetter_def split: if_splits)
qed

lemma lowerByte_ascii:
  assumes "lowerByte a = lowerByte b" "(of_char b :: nat) < 128"
  shows "(of_char a :: nat) < 128"
proof -
  from assms(1) have "(of_char (lowerByte a) :: nat) = of_char (lowerByte b)" by simp
  with assms(2) show ?thesis
    by (auto simp: of_char_lowerByte split: if_splits)
qed

lemma lowered_caseVariant:
  "isASCII sentinel \<Longrightarrow> map lowerByte name = map lowerByte sentinel
   \<Longrightarrow> caseVariant name sentinel"
proof (induction name arbitrary: sentinel)
  case Nil
  then show ?case by (simp add: caseVariant_def)
next
  case (Cons a name)
  then obtain b rest where s: "sentinel = b # rest"
    by (cases sentinel) simp_all
  from Cons.prems s have ab: "lowerByte a = lowerByte b"
    and r: "map lowerByte name = map lowerByte rest"
    and b: "(of_char b :: nat) < 128" and ra: "isASCII rest"
    by (simp_all add: isASCII_def)
  have a: "(of_char a :: nat) < 128" using ab b by (rule lowerByte_ascii)
  have "caseVariant name rest" using ra r by (rule Cons.IH)
  with lowerByte_sameLetter [OF ab] a show ?case
    unfolding s caseVariant_def by (simp add: runes_ascii_head del: runes.simps)
qed

subsection \<open>The library on examples\<close>

lemmas fold_defs =
  hasLabel_def EqualFold_def DecodeRune_def acceptLo_def acceptHi_def continuation_def
  runesFold_def simpleFoldWalk_def asciiFold_def RuneError_def

text \<open>The decoder on well-formed sequences of two, three and four bytes (the long s,
  the Kelvin sign, U+1F600), on the first and last rune of each width, and on overlong
  forms, an encoded surrogate, a rune beyond U+10FFFF, a truncated sequence, a stray
  continuation byte and a byte that starts no sequence.\<close>

lemma DecodeRune_examples:
  "DecodeRune [65, 66] = (65, 1)"
  "DecodeRune [197, 191, 116] = (383, 2)"
  "DecodeRune [226, 132, 170] = (8490, 3)"
  "DecodeRune [240, 159, 152, 128] = (128512, 4)"
  "DecodeRune [194, 128] = (128, 2)"
  "DecodeRune [223, 191] = (2047, 2)"
  "DecodeRune [224, 160, 128] = (2048, 3)"
  "DecodeRune [239, 191, 191] = (65535, 3)"
  "DecodeRune [240, 144, 128, 128] = (65536, 4)"
  "DecodeRune [244, 143, 191, 191] = (1114111, 4)"
  "DecodeRune [192, 128] = (RuneError, 1)"
  "DecodeRune [224, 159, 191] = (RuneError, 1)"
  "DecodeRune [240, 143, 191, 191] = (RuneError, 1)"
  "DecodeRune [237, 160, 128] = (RuneError, 1)"
  "DecodeRune [244, 144, 128, 128] = (RuneError, 1)"
  "DecodeRune [226, 132] = (RuneError, 1)"
  "DecodeRune [226, 132, 65] = (RuneError, 1)"
  "DecodeRune [128, 65] = (RuneError, 1)"
  "DecodeRune [255, 65] = (RuneError, 1)"
  by (simp_all add: DecodeRune_def acceptLo_def acceptHi_def continuation_def)

lemma runes_examples:
  "runes [197, 191, 116, 97] = [383, 116, 97]"
  "runes [255, 226, 132, 170, 107] = [RuneError, 8490, 107]"
  "runes [226, 132, 65] = [RuneError, RuneError, 65]"
  by (simp_all add: DecodeRune_def acceptLo_def acceptHi_def continuation_def)

text \<open>Folding on examples, for every table: letter case, the long s and the Kelvin
  sign are folded, the dotted capital I (U+0130) is no case of \<open>i\<close>, a name is not
  its prefix, and two ill-formed bytes both read as \<^verbatim>\<open>RuneError\<close>. Between two runes
  outside ASCII (here U+00E9 and U+00C9) the answer is the table's, as is the
  lower-casing of a string that is not plain ASCII.\<close>

lemma EqualFold_examples:
  "EqualFold U ''Do Not Stale'' ''do not stale''"
  "EqualFold U ([CHR 0xC5, CHR 0xBF] @ ''tale-warning'') ''stale-warning''"
  "EqualFold U ''STALE-WARNING'' ([CHR 0xC5, CHR 0xBF] @ ''tale-warning'')"
  "EqualFold U ([CHR 0xE2, CHR 0x84, CHR 0xAA] @ ''eep'') ''Keep''"
  "\<not> EqualFold U ([CHR 0xC4, CHR 0xB0] @ ''ssue'') ''issue''"
  "\<not> EqualFold U ''stale'' ''stale-warning''"
  "\<not> EqualFold U ''stale-warning'' ''stale_warning''"
  "\<not> EqualFold U ''stale-warning'' []"
  "EqualFold U [CHR 0xFF] [CHR 0xFE]"
  "EqualFold U [CHR 0xC3, CHR 0xA9] [CHR 0xC3, CHR 0x89] = foldsTo U 201 233"
  by (simp_all add: fold_defs)

lemma ToLower_examples:
  "ToLower U ''Bob-Smith42'' = ''bob-smith42''"
  "ToLower U [CHR 0xC3, CHR 0x89] = mapToLower U [CHR 0xC3, CHR 0x89]"
  by (simp add: ToLower_def isASCII_def, code_simp) (simp add: ToLower_def isASCII_def)

subsection \<open>The tables and the loop body\<close>

lemma ToLower_tables: "isASCII s \<Longrightarrow> ToLower U s = ToLower U' s"
  by (simp add: ToLower_def)

lemma getEmail_tables:
  "email u \<noteq> [] \<or> isASCII (login u) \<Longrightarrow>
   getEmailFromGitHubUser U d u = getEmailFromGitHubUser U' d u"
  by (auto simp: getEmailFromGitHubUser_def ToLower_def)

lemma sentinels_ascii: "isASCII ''do not stale''" "isASCII ''stale-warning''"
  by (simp_all add: isASCII_def)

lemma process_pr_tables:
  assumes "email (author pr) \<noteq> [] \<or> isASCII (login (author pr))"
  shows "process_pr U cfg c pr R tr = process_pr U' cfg c pr R tr"
proof -
  have "hasLabel U pr ''do not stale'' = hasLabel U' pr ''do not stale''"
    and "hasLabel U pr ''stale-warning'' = hasLabel U' pr ''stale-warning''"
    by (rule hasLabel_tables, rule sentinels_ascii)+
  moreover have "getEmailFromGitHubUser U (emailDomain cfg) (author pr)
      = getEmailFromGitHubUser U' (emailDomain cfg) (author pr)"
    using assms by (rule getEmail_tables)
  then have "warnPRAuthor U (emailDomain cfg) R pr = warnPRAuthor U' (emailDomain cfg) R pr"
    and "notifyPRClosure U (emailDomain cfg) R pr = notifyPRClosure U' (emailDomain cfg) R pr"
    by (simp_all add: warnPRAuthor_def notifyPRClosure_def fun_eq_iff)
  ultimately show ?thesis
    by (simp only: process_pr_def)
qed

subsection \<open>Numbers in the environment\<close>

lemma parseDigits_nondigit: "\<not> list_all isDigit s \<Longrightarrow> parseDigits s n = None"
  by (induction s arbitrary: n) auto

lemma Atoi_nonnumeric: "\<not> isNumeric v \<Longrightarrow> Atoi v = None"
proof (cases v)
  case Nil
  then show ?thesis by (simp add: Atoi_def)
next
  case (Cons c rest)
  assume n: "\<not> isNumeric v"
  define ds where "ds = (if c = CHR ''-'' \<or> c = CHR ''+'' then rest else v)"
  from n Cons have "ds = [] \<or> \<not> list_all isDigit ds"
    by (auto simp: isNumeric_def ds_def Let_def)
  then have "ds = [] \<or> parseDigits ds 0 = None"
    by (auto simp: parseDigits_nondigit)
  moreover have "Atoi v = (if ds = [] then None
      else case parseDigits ds 0 of None \<Rightarrow> None
           | Some n \<Rightarrow> (let x = (if c = CHR ''-'' then - int n else int n) in
               if - (2 ^ 63) \<le> x \<and> x < 2 ^ 63 then Some (word_of_int x) else None))"
    using Cons by (simp add: Atoi_def ds_def)
  ultimately show ?thesis by auto
qed

lemma main_config_nonnumeric:
  assumes "\<not> isNumeric v"
  shows "main_config (getenv(''DAYS_INACTIVE'' := v)) fl
      = main_config (getenv(''DAYS_INACTIVE'' := [])) fl"
    and "main_config (getenv(''WARNING_PERIOD'' := v)) fl
      = main_config (getenv(''WARNING_PERIOD'' := [])) fl"
    and "main_config (getenv(''SMTP_PORT'' := v)) fl
      = main_config (getenv(''SMTP_PORT'' := [])) fl"
  using Atoi_nonnumeric [OF assms]
  by (simp_all add: main_config_def defaultDaysInactive_def defaultWarningPeriod_def
      defaultSMTPPort_def defaultEmailDomain_def)

subsection \<open>Pagination\<close>

text \<open>Whatever the pagination returns, it has only added read requests to the trace.\<close>

lemma getOpenPRs_loop_trace:
  assumes "getOpenPRs_loop w ow rp page acc tr = Some y"
  shows "\<exists>evs. snd y = tr @ evs \<and> list_all (\<lambda>ev. readOnly (fst ev)) evs"
proof (rule getOpenPRs_loop.raw_induct
    [where P = "\<lambda>w ow rp page acc tr y.
       \<exists>evs. snd y = tr @ evs \<and> list_all (\<lambda>ev. readOnly (fst ev)) evs", OF _ assms])
  fix loop :: "world \<Rightarrow> string \<Rightarrow> string \<Rightarrow> nat \<Rightarrow> pull_request list \<Rightarrow> event list
      \<Rightarrow> ((error + pull_request list) \<times> event list) option"
    and w :: world and ow rp page acc tr y
  assume IH: "\<And>w ow rp page acc tr y. loop w ow rp page acc tr = Some y \<Longrightarrow>
      \<exists>evs. snd y = tr @ evs \<and> list_all (\<lambda>ev. readOnly (fst ev)) evs"
  assume body: "(case listPage w page of
        Inl err \<Rightarrow> Some (Inl err, tr @ [(PullRequestsList ow rp page, Some err)])
      | Inr (prs, nextPage) \<Rightarrow>
          if nextPage = 0
          then Some (Inr (acc @ prs), tr @ [(PullRequestsList ow rp page, None)])
          else loop w ow rp nextPage (acc @ prs)
                 (tr @ [(PullRequestsList ow rp page, None)])) = Some y"
  show "\<exists>evs. snd y = tr @ evs \<and> list_all (\<lambda>ev. readOnly (fst ev)) evs"
  proof (cases "listPage w page")
    case (Inl err)
    with body show ?thesis by (auto simp: readOnly_def)
  next
    case (Inr p)
    obtain prs nextPage where p: "p = (prs, nextPage)" by (cases p)
    show ?thesis
    proof (cases "nextPage = 0")
      case True
      with body Inr p show ?thesis by (auto simp: readOnly_def)
    next
      case False
      with body Inr p
      have "loop w ow rp nextPage (acc @ prs) (tr @ [(PullRequestsList ow rp page, None)])
          = Some y" by simp
      from IH [OF this] obtain evs where
        "snd y = (tr @ [(PullRequestsList ow rp page, None)]) @ evs"
        "list_all (\<lambda>ev. readOnly (fst ev)) evs" by blast
      then show ?thesis
        by (intro exI [of _ "(PullRequestsList ow rp page, None) # evs"]) (simp add: readOnly_def)
    qed
  qed
qed

lemma getOpenPRs_loop_error:
  "listPage w page = Inl err \<Longrightarrow>
   getOpenPRs_loop w ow rp page acc tr =
     Some (Inl err, tr @ [(PullRequestsList ow rp page, Some err)])"
  by (subst getOpenPRs_loop.simps) simp

lemma getOpenPRs_loop_last:
  "listPage w page = Inr (prs, 0) \<Longrightarrow>
   getOpenPRs_loop w ow rp page acc tr =
     Some (Inr (acc @ prs), tr @ [(PullRequestsList ow rp page, None)])"
  by (subst getOpenPRs_loop.simps) simp

lemma getOpenPRs_loop_next:
  "listPage w page = Inr (prs, nextPage) \<Longrightarrow> nextPage \<noteq> 0 \<Longrightarrow>
   getOpenPRs_loop w ow rp page acc tr =
     getOpenPRs_loop w ow rp nextPage (acc @ prs) (tr @ [(PullRequestsList ow rp page, None)])"
  by (subst getOpenPRs_loop.simps) simp

subsection \<open>Evaluation\<close>

lemmas scenario_defs =
  cfg_30_7_def june1_def bob_def alice_def ghost_def pr12_def pr13_def pr14_def all_ok_def
  all_fail_def long_s_warning_def long_s_opt_out_def

lemmas time_defs =
  staleCutoff_def staleDuration_def daysDuration_def Hour_def Add_def Before_def
  timeSinceLabel_def Sub_def maxDuration_def minDuration_def

lemmas step_defs =
  process_pr_def removeLabel_def closePR_def addWarningLabel_def
  warnPRAuthor_def notifyPRClosure_def sendEmail_def getEmailFromGitHubUser_def

lemma ToLower_Bob: "ToLower U ''Bob'' = ''bob''"
  by (simp add: ToLower_def isASCII_def, code_simp)

section \<open>The opt-out label\<close>

text \<open>
  Claim C1. For a pull request that carries the label \<^verbatim>\<open>do not stale\<close>, whatever its
  age, the loop body makes no close request and sends no message: if the pull request
  also carries \<^verbatim>\<open>stale-warning\<close> it asks once for the removal of that label, and
  otherwise it does nothing.
\<close>

theorem C1_opt_out_exempt:
  assumes "hasLabel U pr ''do not stale''"
  shows "process_pr U cfg cutoff pr R tr =
    tr @ (if hasLabel U pr ''stale-warning''
          then [(RemoveLabelForIssue (owner cfg) (repo cfg) (number pr) ''stale-warning'',
                 removeLabel_err R)]
          else [])"
  using assms by (simp add: process_pr_def removeLabel_def)

text \<open>Pull request 14 of the scenarios carries both labels and was last updated 61
  days ago. The same holds when either label is written with a long s, which the
  label test folds to \<open>s\<close>.\<close>

theorem C1_opt_out_exempt_witness:
  "hasLabel ascii_tables pr14 ''do not stale''
   \<and> process_pr ascii_tables cfg_30_7 (staleCutoff cfg_30_7 june1) pr14 all_ok [] =
       [(RemoveLabelForIssue ''acme'' ''widgets'' 14 ''stale-warning'', None)]
   \<and> hasLabel ascii_tables (pr14\<lparr>labels := [''do not stale'', long_s_warning]\<rparr>)
         ''do not stale''
   \<and> process_pr ascii_tables cfg_30_7 (staleCutoff cfg_30_7 june1)
         (pr14\<lparr>labels := [''do not stale'', long_s_warning]\<rparr>) all_ok [] =
       [(RemoveLabelForIssue ''acme'' ''widgets'' 14 ''stale-warning'', None)]
   \<and> hasLabel ascii_tables (pr14\<lparr>labels := [''stale-warning'', long_s_opt_out]\<rparr>)
         ''do not stale''
   \<and> process_pr ascii_tables cfg_30_7 (staleCutoff cfg_30_7 june1)
         (pr14\<lparr>labels := [''stale-warning'', long_s_opt_out]\<rparr>) all_ok [] =
       [(RemoveLabelForIssue ''acme'' ''widgets'' 14 ''stale-warning'', None)]"
proof -
  let ?c = "staleCutoff cfg_30_7 june1"
  let ?p2 = "pr14\<lparr>labels := [''do not stale'', long_s_warning]\<rparr>"
  let ?p3 = "pr14\<lparr>labels := [''stale-warning'', long_s_opt_out]\<rparr>"
  have h: "hasLabel ascii_tables pr14 ''do not stale''"
    "hasLabel ascii_tables ?p2 ''do not stale''"
    "hasLabel ascii_tables ?p3 ''do not stale''"
    by (simp_all add: fold_defs scenario_defs)
  have w: "hasLabel ascii_tables pr14 ''stale-warning''"
    "hasLabel ascii_tables ?p2 ''stale-warning''"
    "hasLabel ascii_tables ?p3 ''stale-warning''"
    by (simp_all add: fold_defs scenario_defs)
  from C1_opt_out_exempt [OF h(1), where cfg = cfg_30_7 and cutoff = ?c
      and R = all_ok and tr = "[]"]
    C1_opt_out_exempt [OF h(2), where cfg = cfg_30_7 and cutoff = ?c
      and R = all_ok and tr = "[]"]
    C1_opt_out_exempt [OF h(3), where cfg = cfg_30_7 and cutoff = ?c
      and R = all_ok and tr = "[]"] h w
  show ?thesis
    by (simp add: cfg_30_7_def pr14_def all_ok_def)
qed

section \<open>Stale pull requests\<close>

text \<open>
  A pull request is stale when its last update is before the cutoff the loop compares
  against; by \<open>stale_by_days_judged_stale\<close> this holds in particular when the last
  update is before the clock minus the positive inactivity threshold. The day counts
  of the configuration become durations by a 64-bit multiplication with the
  nanoseconds of a day (86400000000000), which is exact up to 106751 days.
\<close>

text \<open>
  Claim C2 as stated fails twice. Pull request 14 is stale, carries the warning label
  and was last updated more than 7 days ago, yet it is not closed: it also carries the
  opt-out label, which is tested first. And with a warning period of 106752 days, whose
  length in nanoseconds wraps around to a negative duration, pull request 12 with the
  warning label is closed 61 days after its last update.
\<close>

theorem C2_stale_warned_close_counterexample:
  "Before (updatedAt pr14) (staleCutoff cfg_30_7 june1)
   \<and> hasLabel ascii_tables pr14 ''stale-warning''
   \<and> sint (warningPeriod cfg_30_7) * 86400000000000 < clock all_ok - updatedAt pr14
   \<and> process_pr ascii_tables cfg_30_7 (staleCutoff cfg_30_7 june1) pr14 all_ok [] =
       [(RemoveLabelForIssue ''acme'' ''widgets'' 14 ''stale-warning'', None)]
   \<and> \<not> missingParameter (cfg_30_7\<lparr>warningPeriod := 106752\<rparr>)
   \<and> Before (updatedAt (pr12\<lparr>labels := [''stale-warning'']\<rparr>))
         (staleCutoff (cfg_30_7\<lparr>warningPeriod := 106752\<rparr>) june1)
   \<and> hasLabel ascii_tables (pr12\<lparr>labels := [''stale-warning'']\<rparr>) ''stale-warning''
   \<and> \<not> hasLabel ascii_tables (pr12\<lparr>labels := [''stale-warning'']\<rparr>) ''do not stale''
   \<and> clock all_ok - updatedAt (pr12\<lparr>labels := [''stale-warning'']\<rparr>)
       \<le> sint (warningPeriod (cfg_30_7\<lparr>warningPeriod := 106752\<rparr>)) * 86400000000000
   \<and> process_pr ascii_tables (cfg_30_7\<lparr>warningPeriod := 106752\<rparr>)
         (staleCutoff (cfg_30_7\<lparr>warningPeriod := 106752\<rparr>) june1)
         (pr12\<lparr>labels := [''stale-warning'']\<rparr>) all_ok [] =
       [(PullRequestsEdit ''acme'' ''widgets'' 12 ''closed'', None),
        (SendEmail ''bob@example.com'' ClosureNotice 12, None)]"
  by (simp add: scenario_defs time_defs step_defs fold_defs missingParameter_def ToLower_Bob)

text \<open>
  Claim C2, amended. For a pull request that does not carry the opt-out label, is stale
  and carries the warning label, under a warning period of at most 106751 days (and,
  as the sanity check admits only positive periods, surely not below -106751): the
  close request is made if and only if the clock minus the last update exceeds the
  warning period; the closure notice is handed to the mail transport exactly when the
  close request returned no error, and its own failure changes nothing else; when the
  elapsed time does not exceed the warning period, nothing is requested.
\<close>

theorem C2_stale_warned_close:
  assumes "\<not> hasLabel U pr ''do not stale''"
    and "Before (updatedAt pr) cutoff"
    and "hasLabel U pr ''stale-warning''"
    and "- 106751 \<le> sint (warningPeriod cfg)" and "sint (warningPeriod cfg) \<le> 106751"
  shows "process_pr U cfg cutoff pr R tr =
    tr @ (if sint (warningPeriod cfg) * 86400000000000 < clock R - updatedAt pr
          then (PullRequestsEdit (owner cfg) (repo cfg) (number pr) ''closed'', closePR_err R)
               # (if closePR_err R = None
                  then [(SendEmail (getEmailFromGitHubUser U (emailDomain cfg) (author pr))
                           ClosureNotice (number pr), sendEmail_err R)]
                  else [])
          else [])"
  using warned_branch [OF assms(1-3)] warning_period_elapsed [OF assms(4,5)]
  by simp

text \<open>Pull request 12 with the warning label, 61 days after its last update: closed
  and notified under a warning period of 7 days, left alone under one of 90 days; with
  the warning label written with a long s it is closed and notified as well.\<close>

theorem C2_stale_warned_close_witness:
  "\<not> hasLabel ascii_tables (pr12\<lparr>labels := [''stale-warning'']\<rparr>) ''do not stale''
   \<and> Before (updatedAt (pr12\<lparr>labels := [''stale-warning'']\<rparr>)) (staleCutoff cfg_30_7 june1)
   \<and> hasLabel ascii_tables (pr12\<lparr>labels := [''stale-warning'']\<rparr>) ''stale-warning''
   \<and> process_pr ascii_tables cfg_30_7 (staleCutoff cfg_30_7 june1)
         (pr12\<lparr>labels := [''stale-warning'']\<rparr>) all_ok [] =
       [(PullRequestsEdit ''acme'' ''widgets'' 12 ''closed'', None),
        (SendEmail ''bob@example.com'' ClosureNotice 12, None)]
   \<and> process_pr ascii_tables (cfg_30_7\<lparr>warningPeriod := 90\<rparr>) (staleCutoff cfg_30_7 june1)
         (pr12\<lparr>labels := [''stale-warning'']\<rparr>) all_ok [] = []
   \<and> \<not> hasLabel ascii_tables (pr12\<lparr>labels := [long_s_warning]\<rparr>) ''do not stale''
   \<and> hasLabel ascii_tables (pr12\<lparr>labels := [long_s_warning]\<rparr>) ''stale-warning''
   \<and> process_pr ascii_tables cfg_30_7 (staleCutoff cfg_30_7 june1)
         (pr12\<lparr>labels := [long_s_warning]\<rparr>) all_ok [] =
       [(PullRequestsEdit ''acme'' ''widgets'' 12 ''closed'', None),
        (SendEmail ''bob@example.com'' ClosureNotice 12, None)]"
proof -
  let ?pr = "pr12\<lparr>labels := [''stale-warning'']\<rparr>"
  let ?ps = "pr12\<lparr>labels := [long_s_warning]\<rparr>"
  let ?c = "staleCutoff cfg_30_7 june1"
  have h1: "\<not> hasLabel ascii_tables ?pr ''do not stale''"
    and s1: "\<not> hasLabel ascii_tables ?ps ''do not stale''"
    by (simp_all add: scenario_defs fold_defs)
  have h2: "Before (updatedAt ?pr) ?c" and s2: "Before (updatedAt ?ps) ?c"
    by (simp_all add: scenario_defs time_defs)
  have h3: "hasLabel ascii_tables ?pr ''stale-warning''"
    and s3: "hasLabel ascii_tables ?ps ''stale-warning''"
    by (simp_all add: scenario_defs fold_defs)
  have a: "- 106751 \<le> sint (warningPeriod cfg_30_7)"
    "sint (warningPeriod cfg_30_7) \<le> 106751"
    by (simp_all add: scenario_defs)
  have b: "- 106751 \<le> sint (warningPeriod (cfg_30_7\<lparr>warningPeriod := 90\<rparr>))"
    "sint (warningPeriod (cfg_30_7\<lparr>warningPeriod := 90\<rparr>)) \<le> 106751"
    by (simp_all add: scenario_defs)
  from C2_stale_warned_close [OF h1 h2 h3 a, where R = all_ok and tr = "[]"]
    C2_stale_warned_close [OF h1 h2 h3 b, where R = all_ok and tr = "[]"]
    C2_stale_warned_close [OF s1 s2 s3 a, where R = all_ok and tr = "[]"]
    h1 h2 h3 s1 s3
  show ?thesis
    by (simp add: cfg_30_7_def june1_def bob_def pr12_def all_ok_def
        getEmailFromGitHubUser_def ToLower_Bob)
qed

text \<open>
  Claim C3 as stated fails on a stale pull request whose only label is the opt-out
  label: it carries no warning label, and no warning is sent.
\<close>

theorem C3_stale_unwarned_warn_counterexample:
  "Before (updatedAt (pr12\<lparr>labels := [''do not stale'']\<rparr>)) (staleCutoff cfg_30_7 june1)
   \<and> \<not> hasLabel ascii_tables (pr12\<lparr>labels := [''do not stale'']\<rparr>) ''stale-warning''
   \<and> process_pr ascii_tables cfg_30_7 (staleCutoff cfg_30_7 june1)
         (pr12\<lparr>labels := [''do not stale'']\<rparr>) all_ok [] = []"
  by (simp add: scenario_defs time_defs step_defs fold_defs)

text \<open>
  Claim C3, amended. For a pull request that does not carry the opt-out label, is stale
  and does not carry the warning label: the warning is handed to the mail transport,
  and the request to add \<^verbatim>\<open>stale-warning\<close> is made if and only if the send returned
  no error; after a failed send nothing more is requested, so the next run finds the
  pull request without the label.
\<close>

theorem C3_stale_unwarned_warn:
  assumes "\<not> hasLabel U pr ''do not stale''"
    and "Before (updatedAt pr) cutoff"
    and "\<not> hasLabel U pr ''stale-warning''"
  shows "process_pr U cfg cutoff pr R tr =
    tr @ (SendEmail (getEmailFromGitHubUser U (emailDomain cfg) (author pr))
            StaleWarning (number pr), sendEmail_err R)
         # (if sendEmail_err R = None
            then [(AddLabelsToIssue (owner cfg) (repo cfg) (number pr) [''stale-warning''],
                   addLabel_err R)]
            else [])"
  using assms
  by (simp add: process_pr_def warnPRAuthor_def addWarningLabel_def sendEmail_def
      getEmail_nonempty Let_def split: option.splits)

text \<open>Pull request 12 without labels: warned and labelled when the send succeeds,
  only the failed send when the mail transport refuses.\<close>

theorem C3_stale_unwarned_warn_witness:
  "\<not> hasLabel ascii_tables pr12 ''do not stale''
   \<and> Before (updatedAt pr12) (staleCutoff cfg_30_7 june1)
   \<and> \<not> hasLabel ascii_tables pr12 ''stale-warning''
   \<and> process_pr ascii_tables cfg_30_7 (staleCutoff cfg_30_7 june1) pr12 all_ok [] =
       [(SendEmail ''bob@example.com'' StaleWarning 12, None),
        (AddLabelsToIssue ''acme'' ''widgets'' 12 [''stale-warning''], None)]
   \<and> process_pr ascii_tables cfg_30_7 (staleCutoff cfg_30_7 june1) pr12
         (all_ok\<lparr>sendEmail_err := Some (Error ''dial tcp: timeout'')\<rparr>) [] =
       [(SendEmail ''bob@example.com'' StaleWarning 12, Some (Error ''dial tcp: timeout''))]"
proof -
  let ?c = "staleCutoff cfg_30_7 june1"
  have h1: "\<not> hasLabel ascii_tables pr12 ''do not stale''"
    by (simp add: scenario_defs fold_defs)
  have h2: "Before (updatedAt pr12) ?c"
    by (simp add: scenario_defs time_defs)
  have h3: "\<not> hasLabel ascii_tables pr12 ''stale-warning''"
    by (simp add: scenario_defs fold_defs)
  from C3_stale_unwarned_warn [OF h1 h2 h3, where cfg = cfg_30_7 and R = all_ok and tr = "[]"]
    C3_stale_unwarned_warn [OF h1 h2 h3, where cfg = cfg_30_7
      and R = "all_ok\<lparr>sendEmail_err := Some (Error ''dial tcp: timeout'')\<rparr>" and tr = "[]"] h1 h2 h3
  show ?thesis
    by (simp add: scenario_defs getEmailFromGitHubUser_def ToLower_Bob)
qed

section \<open>Active pull requests\<close>

text \<open>
  Claim C4 as stated fails under an inactivity threshold of 106752 days, whose length
  in nanoseconds wraps around to a negative duration and puts the cutoff in the future:
  a pull request without labels, updated two days before the run and so well after the
  clock minus 106752 days, is sent a warning and labelled.
\<close>

theorem C4_active_only_unlabels_counterexample:
  "\<not> missingParameter (cfg_30_7\<lparr>daysInactive := 106752\<rparr>)
   \<and> june1 - sint (daysInactive (cfg_30_7\<lparr>daysInactive := 106752\<rparr>)) * 86400000000000
       \<le> updatedAt (pr13\<lparr>labels := []\<rparr>)
   \<and> \<not> hasLabel ascii_tables (pr13\<lparr>labels := []\<rparr>) ''stale-warning''
   \<and> process_pr ascii_tables (cfg_30_7\<lparr>daysInactive := 106752\<rparr>)
         (staleCutoff (cfg_30_7\<lparr>daysInactive := 106752\<rparr>) june1)
         (pr13\<lparr>labels := []\<rparr>) all_ok [] =
       [(SendEmail ''a@b.com'' StaleWarning 13, None),
        (AddLabelsToIssue ''acme'' ''widgets'' 13 [''stale-warning''], None)]"
  by (simp add: scenario_defs time_defs step_defs fold_defs missingParameter_def)

text \<open>
  Claim C4, amended. Under an inactivity threshold of at most 106751 days (and not
  below -106751, as every threshold that passes the sanity check is), for a pull
  request whose last update is at or after the clock minus the threshold: nothing is
  requested unless the pull request carries the warning label, and then the removal of
  that label is requested and nothing else. The opt-out label makes no difference here.
\<close>

theorem C4_active_only_unlabels:
  assumes "- 106751 \<le> sint (daysInactive cfg)" and "sint (daysInactive cfg) \<le> 106751"
    and "now - sint (daysInactive cfg) * 86400000000000 \<le> updatedAt pr"
  shows "process_pr U cfg (staleCutoff cfg now) pr R tr =
    tr @ (if hasLabel U pr ''stale-warning''
          then [(RemoveLabelForIssue (owner cfg) (repo cfg) (number pr) ''stale-warning'',
                 removeLabel_err R)]
          else [])"
proof -
  have "staleCutoff cfg now = now - sint (daysInactive cfg) * 86400000000000"
    using assms(1,2) by (rule staleCutoff_in_range)
  with assms(3) have "\<not> Before (updatedAt pr) (staleCutoff cfg now)"
    by (simp add: Before_def)
  then show ?thesis
    by (simp add: process_pr_def removeLabel_def)
qed

text \<open>Pull request 13, updated two days before the run, loses its warning label,
  also when the label is written with a long s; the same pull request without labels
  is left alone.\<close>

theorem C4_active_only_unlabels_witness:
  "- 106751 \<le> sint (daysInactive cfg_30_7) \<and> sint (daysInactive cfg_30_7) \<le> 106751
   \<and> june1 - sint (daysInactive cfg_30_7) * 86400000000000 \<le> updatedAt pr13
   \<and> process_pr ascii_tables cfg_30_7 (staleCutoff cfg_30_7 june1) pr13 all_ok [] =
       [(RemoveLabelForIssue ''acme'' ''widgets'' 13 ''stale-warning'', None)]
   \<and> process_pr ascii_tables cfg_30_7 (staleCutoff cfg_30_7 june1)
         (pr13\<lparr>labels := []\<rparr>) all_ok [] = []
   \<and> process_pr ascii_tables cfg_30_7 (staleCutoff cfg_30_7 june1)
         (pr13\<lparr>labels := [long_s_warning]\<rparr>) all_ok [] =
       [(RemoveLabelForIssue ''acme'' ''widgets'' 13 ''stale-warning'', None)]"
proof -
  have a: "- 106751 \<le> sint (daysInactive cfg_30_7)"
    "sint (daysInactive cfg_30_7) \<le> 106751"
    by (simp_all add: scenario_defs)
  have b: "june1 - sint (daysInactive cfg_30_7) * 86400000000000 \<le> updatedAt pr13"
    by (simp add: scenario_defs)
  have c: "june1 - sint (daysInactive cfg_30_7) * 86400000000000
      \<le> updatedAt (pr13\<lparr>labels := []\<rparr>)"
    by (simp add: scenario_defs)
  have d: "june1 - sint (daysInactive cfg_30_7) * 86400000000000
      \<le> updatedAt (pr13\<lparr>labels := [long_s_warning]\<rparr>)"
    by (simp add: scenario_defs)
  have l: "hasLabel ascii_tables pr13 ''stale-warning''"
    "\<not> hasLabel ascii_tables (pr13\<lparr>labels := []\<rparr>) ''stale-warning''"
    "hasLabel ascii_tables (pr13\<lparr>labels := [long_s_warning]\<rparr>) ''stale-warning''"
    by (simp_all add: scenario_defs fold_defs)
  from C4_active_only_unlabels [OF a b, where U = ascii_tables and R = all_ok and tr = "[]"]
    C4_active_only_unlabels [OF a c, where U = ascii_tables and R = all_ok and tr = "[]"]
    C4_active_only_unlabels [OF a d, where U = ascii_tables and R = all_ok and tr = "[]"]
    a b l
  show ?thesis
    by (simp add: cfg_30_7_def june1_def pr13_def all_ok_def)
qed

section \<open>The grace period\<close>

text \<open>
  Claim C9 as stated fails twice. Under an inactivity threshold of 106752 days (which
  wraps around and puts the cutoff in the future) and a warning period of 7 days, pull
  request 13 is judged stale two days after its last update and is not closed. And
  under thresholds of 30 and 30 days, a pull request last updated one nanosecond before
  the cutoff is not closed when the clock read for the elapsed time is one second
  behind the clock read for the cutoff.
\<close>

theorem C9_grace_no_extra_delay_counterexample:
  "\<not> missingParameter (cfg_30_7\<lparr>daysInactive := 106752\<rparr>)
   \<and> sint (warningPeriod (cfg_30_7\<lparr>daysInactive := 106752\<rparr>))
       \<le> sint (daysInactive (cfg_30_7\<lparr>daysInactive := 106752\<rparr>))
   \<and> \<not> hasLabel ascii_tables pr13 ''do not stale''
   \<and> Before (updatedAt pr13) (staleCutoff (cfg_30_7\<lparr>daysInactive := 106752\<rparr>) june1)
   \<and> hasLabel ascii_tables pr13 ''stale-warning''
   \<and> process_pr ascii_tables (cfg_30_7\<lparr>daysInactive := 106752\<rparr>)
         (staleCutoff (cfg_30_7\<lparr>daysInactive := 106752\<rparr>) june1) pr13 all_ok [] = []
   \<and> \<not> missingParameter (cfg_30_7\<lparr>warningPeriod := 30\<rparr>)
   \<and> sint (warningPeriod (cfg_30_7\<lparr>warningPeriod := 30\<rparr>))
       \<le> sint (daysInactive (cfg_30_7\<lparr>warningPeriod := 30\<rparr>))
   \<and> \<not> hasLabel ascii_tables (pr13\<lparr>updatedAt := 1714607999999999999\<rparr>) ''do not stale''
   \<and> Before (updatedAt (pr13\<lparr>updatedAt := 1714607999999999999\<rparr>))
         (staleCutoff (cfg_30_7\<lparr>warningPeriod := 30\<rparr>) june1)
   \<and> hasLabel ascii_tables (pr13\<lparr>updatedAt := 1714607999999999999\<rparr>) ''stale-warning''
   \<and> process_pr ascii_tables (cfg_30_7\<lparr>warningPeriod := 30\<rparr>)
         (staleCutoff (cfg_30_7\<lparr>warningPeriod := 30\<rparr>) june1)
         (pr13\<lparr>updatedAt := 1714607999999999999\<rparr>)
         (all_ok\<lparr>clock := 1717199999000000000\<rparr>) [] = []"
  by (simp add: scenario_defs time_defs step_defs fold_defs missingParameter_def)

text \<open>
  Claim C9, amended. Let the inactivity threshold be at most 106751 days, the warning
  period not below -106751 days (as every period that passes the sanity check is), and
  let the clock read for the elapsed time be no earlier than the clock read for the
  cutoff. Then for every pull request that is judged stale (it carries no opt-out label
  and its last update is before the cutoff) while carrying the warning label, whenever
  the warning period is at most the inactivity threshold the close request is made:
  the warning period adds no delay to the inactivity threshold.
\<close>

theorem C9_grace_no_extra_delay:
  assumes "\<not> hasLabel U pr ''do not stale''"
    and "Before (updatedAt pr) (staleCutoff cfg now)"
    and "hasLabel U pr ''stale-warning''"
    and "- 106751 \<le> sint (warningPeriod cfg)"
    and "sint (warningPeriod cfg) \<le> sint (daysInactive cfg)"
    and "sint (daysInactive cfg) \<le> 106751"
    and "now \<le> clock R"
  shows "process_pr U cfg (staleCutoff cfg now) pr R tr =
    tr @ (PullRequestsEdit (owner cfg) (repo cfg) (number pr) ''closed'', closePR_err R)
         # (if closePR_err R = None
            then [(SendEmail (getEmailFromGitHubUser U (emailDomain cfg) (author pr))
                     ClosureNotice (number pr), sendEmail_err R)]
            else [])"
proof -
  have c: "staleCutoff cfg now = now - sint (daysInactive cfg) * 86400000000000"
    using assms(4-6) by (intro staleCutoff_in_range) simp_all
  have "sint (warningPeriod cfg) * 86400000000000 \<le> sint (daysInactive cfg) * 86400000000000"
    using assms(5) by simp
  moreover have "sint (daysInactive cfg) * 86400000000000 < now - updatedAt pr"
    using assms(2) c by (simp add: Before_def)
  ultimately have e: "sint (warningPeriod cfg) * 86400000000000 < clock R - updatedAt pr"
    using assms(7) by linarith
  have "sint (warningPeriod cfg) \<le> 106751"
    using assms(5,6) by simp
  from warning_period_elapsed [OF assms(4) this, where R = R and pr = pr] e
  have "sint (daysDuration (warningPeriod cfg)) < sint (timeSinceLabel R pr)"
    by simp
  with warned_branch [OF assms(1-3), where cfg = cfg and R = R and tr = tr] show ?thesis
    by simp
qed

text \<open>Pull request 12 with the warning label, under thresholds of 30 and 7 days and
  one clock reading: closed in the run that finds it stale.\<close>

theorem C9_grace_no_extra_delay_witness:
  "\<not> hasLabel ascii_tables (pr12\<lparr>labels := [''stale-warning'']\<rparr>) ''do not stale''
   \<and> Before (updatedAt (pr12\<lparr>labels := [''stale-warning'']\<rparr>)) (staleCutoff cfg_30_7 june1)
   \<and> hasLabel ascii_tables (pr12\<lparr>labels := [''stale-warning'']\<rparr>) ''stale-warning''
   \<and> - 106751 \<le> sint (warningPeriod cfg_30_7)
   \<and> sint (warningPeriod cfg_30_7) \<le> sint (daysInactive cfg_30_7)
   \<and> sint (daysInactive cfg_30_7) \<le> 106751
   \<and> june1 \<le> clock all_ok
   \<and> process_pr ascii_tables cfg_30_7 (staleCutoff cfg_30_7 june1)
         (pr12\<lparr>labels := [''stale-warning'']\<rparr>) all_ok [] =
       [(PullRequestsEdit ''acme'' ''widgets'' 12 ''closed'', None),
        (SendEmail ''bob@example.com'' ClosureNotice 12, None)]"
proof -
  let ?pr = "pr12\<lparr>labels := [''stale-warning'']\<rparr>"
  have h1: "\<not> hasLabel ascii_tables ?pr ''do not stale''"
    by (simp add: scenario_defs fold_defs)
  have h2: "Before (updatedAt ?pr) (staleCutoff cfg_30_7 june1)"
    by (simp add: scenario_defs time_defs)
  have h3: "hasLabel ascii_tables ?pr ''stale-warning''"
    by (simp add: scenario_defs fold_defs)
  have h4: "- 106751 \<le> sint (warningPeriod cfg_30_7)"
    and h5: "sint (warningPeriod cfg_30_7) \<le> sint (daysInactive cfg_30_7)"
    and h6: "sint (daysInactive cfg_30_7) \<le> 106751"
    and h7: "june1 \<le> clock all_ok"
    by (simp_all add: scenario_defs)
  from C9_grace_no_extra_delay [OF h1 h2 h3 h4 h5 h6 h7, where tr = "[]"] h1 h2 h3 h4 h5 h6 h7
  show ?thesis
    by (simp add: scenario_defs getEmailFromGitHubUser_def ToLower_Bob)
qed

section \<open>The recipient\<close>

text \<open>
  Claim C5. The recipient is the public email when there is one and otherwise the
  lower-cased handle, an \<^verbatim>\<open>@\<close> and the fallback domain; the claim has it empty only
  for an empty handle, in which case the caller skips the send. The callers do test
  the address for emptiness (the first branch of \<open>warnPRAuthor\<close> and of
  \<open>notifyPRClosure\<close>), but the resolver never gives them the empty address: for an
  author without handle and without public email, under the fallback domain
  \<^verbatim>\<open>example.com\<close>, it returns \<^verbatim>\<open>@example.com\<close>, and the caller hands the
  warning for that address to the mail transport instead of skipping it.
\<close>

theorem C5_recipient_empty_handle:
  "login ghost = [] \<and> email ghost = []
   \<and> getEmailFromGitHubUser U ''example.com'' ghost = ''@example.com''
   \<and> warnPRAuthor U ''example.com'' R (pr12\<lparr>author := ghost\<rparr>) tr =
       (sendEmail_err R, tr @ [(SendEmail ''@example.com'' StaleWarning 12, sendEmail_err R)])
   \<and> notifyPRClosure U ''example.com'' R (pr12\<lparr>author := ghost\<rparr>) tr =
       (sendEmail_err R, tr @ [(SendEmail ''@example.com'' ClosureNotice 12, sendEmail_err R)])"
  by (simp add: scenario_defs warnPRAuthor_def notifyPRClosure_def sendEmail_def
      getEmailFromGitHubUser_def ToLower_def isASCII_def)

section \<open>Startup\<close>

text \<open>
  Claim C6. When the token, the base URL, the owner, the repository, the SMTP user or
  the SMTP password is empty, or one of the two day thresholds is not strictly positive,
  the process ends with the fatal "missing required parameter" and its trace is empty:
  no request was sent to the repository host or to the mail transport.
\<close>

theorem C6_startup_refuses:
  assumes "cfg = main_config getenv fl"
    and "githubToken cfg = [] \<or> githubBaseURL cfg = [] \<or> owner cfg = [] \<or> repo cfg = []
      \<or> smtpUser cfg = [] \<or> smtpPassword cfg = []
      \<or> sint (daysInactive cfg) \<le> 0 \<or> sint (warningPeriod cfg) \<le> 0"
  shows "main U getenv fl w = Some (Fatal MissingParameter, [])"
proof -
  from assms(2) have "missingParameter cfg"
    by (auto simp: missingParameter_def)
  then show ?thesis
    by (simp add: main_def main_run_def assms(1))
qed

text \<open>With an empty environment and no flags every parameter is missing. With every
  variable set to \<^verbatim>\<open>x\<close>, except a warning period of \<^verbatim>\<open>0\<close>, and 30 days of
  inactivity given as a flag, only the warning period stops the process.\<close>

theorem C6_startup_refuses_witness:
  "githubToken (main_config no_env no_flags) = []
   \<and> main ascii_tables no_env no_flags world_page2_fails = Some (Fatal MissingParameter, [])
   \<and> sint (warningPeriod (main_config
         (\<lambda>name. if name = ''WARNING_PERIOD'' then ''0'' else ''x'')
         (no_flags\<lparr>daysInactiveFlag := Some 30\<rparr>))) \<le> 0
   \<and> main ascii_tables (\<lambda>name. if name = ''WARNING_PERIOD'' then ''0'' else ''x'')
         (no_flags\<lparr>daysInactiveFlag := Some 30\<rparr>) world_page2_fails
       = Some (Fatal MissingParameter, [])"
proof -
  let ?env = "\<lambda>name. if name = ''WARNING_PERIOD'' then ''0'' else ''x''"
  let ?fl = "no_flags\<lparr>daysInactiveFlag := Some 30\<rparr>"
  have h: "githubToken (main_config no_env no_flags) = []"
    by (simp add: main_config_def no_env_def no_flags_def flagValue_def)
  have k: "sint (warningPeriod (main_config ?env ?fl)) \<le> 0"
    by (simp add: main_config_def no_flags_def flagValue_def defaultWarningPeriod_def
        Atoi_def isDigit_def)
  from C6_startup_refuses [OF refl, where U = ascii_tables and getenv = no_env and fl = no_flags
      and w = world_page2_fails]
    C6_startup_refuses [OF refl, where U = ascii_tables and getenv = ?env and fl = ?fl
      and w = world_page2_fails] h k
  show ?thesis by simp
qed

text \<open>
  Claim C10. A value of \<^verbatim>\<open>DAYS_INACTIVE\<close>, \<^verbatim>\<open>WARNING_PERIOD\<close> or \<^verbatim>\<open>SMTP_PORT\<close> that
  is not numeric is treated as if the variable were unset: the defaults 0, 0 and 587
  stand, and the whole configuration, hence the whole run, is the one of the unset
  variable. The sanity check does not read the SMTP port: whatever port is configured,
  zero or negative included, the check gives the same verdict.
\<close>

theorem C10_env_numbers_lenient:
  assumes "\<not> isNumeric v"
  shows "defaultDaysInactive (getenv(''DAYS_INACTIVE'' := v)) = 0
    \<and> defaultWarningPeriod (getenv(''WARNING_PERIOD'' := v)) = 0
    \<and> defaultSMTPPort (getenv(''SMTP_PORT'' := v)) = 587
    \<and> main U (getenv(''DAYS_INACTIVE'' := v)) fl w = main U (getenv(''DAYS_INACTIVE'' := [])) fl w
    \<and> main U (getenv(''WARNING_PERIOD'' := v)) fl w = main U (getenv(''WARNING_PERIOD'' := [])) fl w
    \<and> main U (getenv(''SMTP_PORT'' := v)) fl w = main U (getenv(''SMTP_PORT'' := [])) fl w
    \<and> missingParameter (cfg\<lparr>smtpPort := port\<rparr>) = missingParameter cfg"
  using Atoi_nonnumeric [OF assms] main_config_nonnumeric [OF assms, where getenv = getenv and fl = fl]
  by (simp add: defaultDaysInactive_def defaultWarningPeriod_def defaultSMTPPort_def
      main_def missingParameter_def)

text \<open>The value \<^verbatim>\<open>thirty\<close> is not numeric, and port 0 passes the check with the
  configuration of the scenarios.\<close>

theorem C10_env_numbers_lenient_witness:
  "\<not> isNumeric ''thirty''
   \<and> defaultDaysInactive (no_env(''DAYS_INACTIVE'' := ''thirty'')) = 0
   \<and> defaultWarningPeriod (no_env(''WARNING_PERIOD'' := ''thirty'')) = 0
   \<and> defaultSMTPPort (no_env(''SMTP_PORT'' := ''thirty'')) = 587
   \<and> \<not> missingParameter (cfg_30_7\<lparr>smtpPort := 0\<rparr>)
   \<and> \<not> missingParameter (cfg_30_7\<lparr>smtpPort := - 1\<rparr>)"
proof -
  have h: "\<not> isNumeric ''thirty''"
    by (simp add: isNumeric_def isDigit_def)
  have m: "\<not> missingParameter cfg_30_7"
    by (simp add: missingParameter_def cfg_30_7_def)
  from C10_env_numbers_lenient [OF h, where getenv = no_env and cfg = cfg_30_7 and port = 0]
    C10_env_numbers_lenient [OF h, where getenv = no_env and cfg = cfg_30_7 and port = "- 1"]
    h m
  show ?thesis by simp
qed

section \<open>Label names\<close>

text \<open>
  Claim C7. The membership test compares label names without regard to letter case.
  For an ASCII name asked for, as both sentinel names \<^verbatim>\<open>do not stale\<close> and
  \<^verbatim>\<open>stale-warning\<close> are, and whatever the Unicode tables hold: the test succeeds
  exactly when one of the labels of the pull request is a case variant of that name;
  and a pull request with a label that has the same lower-casing as the name, that is,
  differs from it only in the case of ASCII letters, passes the test, so that the loop
  treats it as carrying the sentinel label.
\<close>

theorem C7_label_case_insensitive:
  assumes "isASCII sentinel"
  shows "hasLabel U pr sentinel = (\<exists>name \<in> set (labels pr). caseVariant name sentinel)
    \<and> (label \<in> set (labels pr) \<and> map lowerByte label = map lowerByte sentinel
        \<longrightarrow> hasLabel U pr sentinel)"
proof -
  have iff: "hasLabel U pr sentinel = (\<exists>name \<in> set (labels pr). caseVariant name sentinel)"
    using assms by (simp add: hasLabel_def hasLabel_range_iff)
  moreover have "hasLabel U pr sentinel"
    if "label \<in> set (labels pr)" "map lowerByte label = map lowerByte sentinel"
    using that lowered_caseVariant [OF assms, of label] iff by blast
  ultimately show ?thesis by blast
qed

text \<open>A pull request labelled \<^verbatim>\<open>Do Not Stale\<close> and \<^verbatim>\<open>STALE-WARNING\<close> carries
  both sentinel labels, and so does one whose warning label is written with a long s;
  labels that differ by more than case, \<^verbatim>\<open>stale\<close> and \<^verbatim>\<open>stale-warnings\<close>, are
  not taken for the warning label.\<close>

theorem C7_label_case_insensitive_witness:
  "isASCII ''stale-warning'' \<and> isASCII ''do not stale''
   \<and> map lowerByte ''STALE-WARNING'' = map lowerByte ''stale-warning''
   \<and> map lowerByte ''Do Not Stale'' = map lowerByte ''do not stale''
   \<and> hasLabel ascii_tables (pr14\<lparr>labels := [''Do Not Stale'', ''STALE-WARNING'']\<rparr>)
         ''stale-warning''
   \<and> hasLabel ascii_tables (pr14\<lparr>labels := [''Do Not Stale'', ''STALE-WARNING'']\<rparr>)
         ''do not stale''
   \<and> caseVariant long_s_warning ''stale-warning''
   \<and> hasLabel ascii_tables (pr14\<lparr>labels := [''do not stale'', long_s_warning]\<rparr>)
         ''stale-warning''
   \<and> \<not> caseVariant ''stale'' ''stale-warning''
   \<and> \<not> caseVariant ''stale-warnings'' ''stale-warning''
   \<and> \<not> hasLabel ascii_tables (pr14\<lparr>labels := [''stale'', ''stale-warnings'']\<rparr>)
         ''stale-warning''"
proof -
  let ?pr = "pr14\<lparr>labels := [''Do Not Stale'', ''STALE-WARNING'']\<rparr>"
  let ?ps = "pr14\<lparr>labels := [''do not stale'', long_s_warning]\<rparr>"
  let ?pn = "pr14\<lparr>labels := [''stale'', ''stale-warnings'']\<rparr>"
  note a = sentinels_ascii
  have l1: "map lowerByte ''STALE-WARNING'' = map lowerByte ''stale-warning''"
    and l2: "map lowerByte ''Do Not Stale'' = map lowerByte ''do not stale''"
    by code_simp+
  have v3: "caseVariant long_s_warning ''stale-warning''"
    by (simp add: long_s_warning_def caseVariant_def sameLetter_def DecodeRune_def
        acceptLo_def acceptHi_def)
  have n1: "\<not> caseVariant ''stale'' ''stale-warning''"
    and n2: "\<not> caseVariant ''stale-warnings'' ''stale-warning''"
    by (simp_all add: caseVariant_def sameLetter_def DecodeRune_def)
  have m1: "''STALE-WARNING'' \<in> set (labels ?pr)"
    and m2: "''Do Not Stale'' \<in> set (labels ?pr)"
    by (simp_all add: pr14_def)
  have h1: "hasLabel ascii_tables ?pr ''stale-warning''"
    using C7_label_case_insensitive [OF a(2), where U = ascii_tables and pr = ?pr
      and label = "''STALE-WARNING''", THEN conjunct2, THEN mp, OF conjI [OF m1 l1]] .
  have h2: "hasLabel ascii_tables ?pr ''do not stale''"
    using C7_label_case_insensitive [OF a(1), where U = ascii_tables and pr = ?pr
      and label = "''Do Not Stale''", THEN conjunct2, THEN mp, OF conjI [OF m2 l2]] .
  from C7_label_case_insensitive [OF a(2), where U = ascii_tables and pr = ?ps] v3
  have h3: "hasLabel ascii_tables ?ps ''stale-warning''" by (simp add: pr14_def)
  from C7_label_case_insensitive [OF a(2), where U = ascii_tables and pr = ?pn] n1 n2
  have h4: "\<not> hasLabel ascii_tables ?pn ''stale-warning''" by (simp add: pr14_def)
  from a l1 l2 v3 n1 n2 h1 h2 h3 h4 show ?thesis by simp
qed

section \<open>Failures\<close>

text \<open>
  Claim C8. Whatever the responses to the requests made for the pull requests (label
  removal, label addition, close and mail may each fail), the loop reaches every pull
  request of the list: the trace of the loop is, in order, what the loop body does for
  each pull request with the responses this pull request meets, and the process returns
  from \<^verbatim>\<open>main\<close>. When instead the listing of the open pull requests returns an error,
  on whatever page, the process ends with the fatal "error fetching PRs": the pull
  requests of the pages already fetched are dropped and the trace holds read requests
  only.
\<close>

theorem C8_failures_isolated:
  "process_prs U cfg cutoff prs Rs i tr =
     tr @ concat (map (\<lambda>(k, pr). process_pr U cfg cutoff pr (Rs k) []) (enumerate i prs))
   \<and> (\<not> missingParameter cfg
        \<and> getGithubClient w (githubToken cfg) (githubBaseURL cfg) = Inr ()
        \<and> usersGet_err w = None
        \<and> getOpenPRs w (owner cfg) (repo cfg) [(UsersGet, None)] = Some (Inr openPRs, tr')
      \<longrightarrow> main_run U cfg w =
            Some (Returned,
              tr' @ concat (map (\<lambda>(k, pr).
                       process_pr U cfg (staleCutoff cfg (startClock w)) pr (respond w k) [])
                     (enumerate 0 openPRs))))
   \<and> (\<not> missingParameter cfg
        \<and> getGithubClient w (githubToken cfg) (githubBaseURL cfg) = Inr ()
        \<and> usersGet_err w = None
        \<and> getOpenPRs w (owner cfg) (repo cfg) [(UsersGet, None)] = Some (Inl err, tr'')
      \<longrightarrow> main_run U cfg w = Some (Fatal (FetchFailed err), tr'')
          \<and> list_all (\<lambda>ev. readOnly (fst ev)) tr'')"
proof (intro conjI impI)
  show "process_prs U cfg cutoff prs Rs i tr =
     tr @ concat (map (\<lambda>(k, pr). process_pr U cfg cutoff pr (Rs k) []) (enumerate i prs))"
    by (rule process_prs_concat)
next
  assume "\<not> missingParameter cfg
    \<and> getGithubClient w (githubToken cfg) (githubBaseURL cfg) = Inr ()
    \<and> usersGet_err w = None
    \<and> getOpenPRs w (owner cfg) (repo cfg) [(UsersGet, None)] = Some (Inr openPRs, tr')"
  then show "main_run U cfg w =
      Some (Returned,
        tr' @ concat (map (\<lambda>(k, pr).
                 process_pr U cfg (staleCutoff cfg (startClock w)) pr (respond w k) [])
               (enumerate 0 openPRs)))"
    by (cases openPRs) (simp_all add: main_run_def testGitHubConnection_def process_prs_concat)
next
  assume a: "\<not> missingParameter cfg
    \<and> getGithubClient w (githubToken cfg) (githubBaseURL cfg) = Inr ()
    \<and> usersGet_err w = None
    \<and> getOpenPRs w (owner cfg) (repo cfg) [(UsersGet, None)] = Some (Inl err, tr'')"
  then show "main_run U cfg w = Some (Fatal (FetchFailed err), tr'')"
    by (simp add: main_run_def testGitHubConnection_def)
  from a have "getOpenPRs_loop w (owner cfg) (repo cfg) 0 [] [(UsersGet, None)]
      = Some (Inl err, tr'')"
    by (simp add: getOpenPRs_def)
  from getOpenPRs_loop_trace [OF this] obtain evs where
    "tr'' = [(UsersGet, None)] @ evs" "list_all (\<lambda>ev. readOnly (fst ev)) evs"
    by auto
  then show "list_all (\<lambda>ev. readOnly (fst ev)) tr''"
    by (simp add: readOnly_def)
qed

text \<open>Two runs under the configuration of the scenarios. In the first the host lists
  pull requests 12 and 13 and then every request fails: the warning for 12 fails, and
  the removal of the label of 13 is still requested. In the second the host fails on
  the second page of the listing: pull request 12 of the first page is not processed.\<close>

theorem C8_failures_isolated_witness:
  "main_run ascii_tables cfg_30_7 world_requests_fail =
     Some (Returned,
       [(UsersGet, None), (PullRequestsList ''acme'' ''widgets'' 0, None),
        (SendEmail ''bob@example.com'' StaleWarning 12, Some (Error ''dial tcp: timeout'')),
        (RemoveLabelForIssue ''acme'' ''widgets'' 13 ''stale-warning'', Some (Error ''404''))])
   \<and> main_run ascii_tables cfg_30_7 world_page2_fails =
       Some (Fatal (FetchFailed (Error ''502'')),
         [(UsersGet, None), (PullRequestsList ''acme'' ''widgets'' 0, None),
          (PullRequestsList ''acme'' ''widgets'' 2, Some (Error ''502''))])"
proof -
  have m: "\<not> missingParameter cfg_30_7"
    by (simp add: missingParameter_def cfg_30_7_def)
  have c1: "getGithubClient world_requests_fail (githubToken cfg_30_7) (githubBaseURL cfg_30_7)
      = Inr ()"
    and c2: "getGithubClient world_page2_fails (githubToken cfg_30_7) (githubBaseURL cfg_30_7)
      = Inr ()"
    by (simp_all add: getGithubClient_def world_requests_fail_def world_page2_fails_def)
  have u1: "usersGet_err world_requests_fail = None"
    and u2: "usersGet_err world_page2_fails = None"
    by (simp_all add: world_requests_fail_def world_page2_fails_def)
  have g1: "getOpenPRs world_requests_fail (owner cfg_30_7) (repo cfg_30_7) [(UsersGet, None)]
      = Some (Inr [pr12, pr13],
          [(UsersGet, None), (PullRequestsList ''acme'' ''widgets'' 0, None)])"
    by (simp add: getOpenPRs_def getOpenPRs_loop_last [where prs = "[pr12, pr13]"]
        world_requests_fail_def cfg_30_7_def)
  have p0: "listPage world_page2_fails 0 = Inr ([pr12], 2)"
    and p2: "listPage world_page2_fails 2 = Inl (Error ''502'')"
    by (simp_all add: world_page2_fails_def)
  have g2: "getOpenPRs world_page2_fails (owner cfg_30_7) (repo cfg_30_7) [(UsersGet, None)]
      = Some (Inl (Error ''502''),
          [(UsersGet, None), (PullRequestsList ''acme'' ''widgets'' 0, None),
           (PullRequestsList ''acme'' ''widgets'' 2, Some (Error ''502''))])"
    by (simp add: getOpenPRs_def getOpenPRs_loop_next [OF p0] getOpenPRs_loop_error [OF p2]
        cfg_30_7_def)
  have s: "respond world_requests_fail = (\<lambda>i. all_fail)"
    "startClock world_requests_fail = june1"
    by (simp_all add: world_requests_fail_def)
  from C8_failures_isolated [where U = ascii_tables and cfg = cfg_30_7 and w = world_requests_fail
      and openPRs = "[pr12, pr13]"
      and tr' = "[(UsersGet, None), (PullRequestsList ''acme'' ''widgets'' 0, None)]"]
    m c1 u1 g1
  have r1: "main_run ascii_tables cfg_30_7 world_requests_fail =
      Some (Returned,
        [(UsersGet, None), (PullRequestsList ''acme'' ''widgets'' 0, None)]
        @ process_pr ascii_tables cfg_30_7 (staleCutoff cfg_30_7 june1) pr12 all_fail []
        @ process_pr ascii_tables cfg_30_7 (staleCutoff cfg_30_7 june1) pr13 all_fail [])"
    by (simp add: s)
  have e12: "process_pr ascii_tables cfg_30_7 (staleCutoff cfg_30_7 june1) pr12 all_fail [] =
      [(SendEmail ''bob@example.com'' StaleWarning 12, Some (Error ''dial tcp: timeout''))]"
    by (simp add: scenario_defs time_defs step_defs fold_defs ToLower_Bob)
  have e13: "process_pr ascii_tables cfg_30_7 (staleCutoff cfg_30_7 june1) pr13 all_fail [] =
      [(RemoveLabelForIssue ''acme'' ''widgets'' 13 ''stale-warning'', Some (Error ''404''))]"
    by (simp add: scenario_defs time_defs step_defs fold_defs)
  from C8_failures_isolated [where U = ascii_tables and cfg = cfg_30_7 and w = world_page2_fails
      and err = "Error ''502''"
      and tr'' = "[(UsersGet, None), (PullRequestsList ''acme'' ''widgets'' 0, None),
           (PullRequestsList ''acme'' ''widgets'' 2, Some (Error ''502''))]"]
    m c2 u2 g2
  have r2: "main_run ascii_tables cfg_30_7 world_page2_fails =
       Some (Fatal (FetchFailed (Error ''502'')),
         [(UsersGet, None), (PullRequestsList ''acme'' ''widgets'' 0, None),
          (PullRequestsList ''acme'' ''widgets'' 2, Some (Error ''502''))])"
    by simp
  from r1 r2 e12 e13 show ?thesis by simp
qed

end
